theory Spec2Isabelle
  imports Complex_Main "HOL-Library.Log_Nat"
begin

section \<open>JavaScript numbers\<close>

text \<open>
  The calculator of \<^verbatim>\<open>calculator/script.js\<close> stores its operands as JavaScript
  Numbers, that is IEEE 754 binary64 values.  A finite value is kept as the rational it
  denotes; the two zeros are identified (the script never divides by a zero, it compares
  with \<^verbatim>\<open>=== 0\<close> and prints with \<^verbatim>\<open>String\<close>, and neither tells the zeros apart).
\<close>

datatype jsnum = NaN | PosInf | NegInf | Fin rat

definition pow2 :: "int \<Rightarrow> rat" where
  "pow2 i = (if 0 \<le> i then 2 ^ nat i else 1 / 2 ^ nat (- i))"

definition pow10 :: "int \<Rightarrow> rat" where
  "pow10 i = (if 0 \<le> i then 10 ^ nat i else 1 / 10 ^ nat (- i))"

text \<open>The binary exponent of a positive rational: \<open>2^e \<le> x < 2^(e+1)\<close>.\<close>

definition ilog2 :: "rat \<Rightarrow> int" where
  "ilog2 x = (if 1 \<le> x then bitlen \<lfloor>x\<rfloor> - 1 else - bitlen (\<lceil>1 / x\<rceil> - 1))"

text \<open>Rounding to the nearest integer, a tie going to the even one.\<close>

definition rne :: "rat \<Rightarrow> int" where
  "rne t = (let f = \<lfloor>t\<rfloor>; r = t - of_int f in
     if r < 1 / 2 then f else if 1 / 2 < r then f + 1 else if even f then f else f + 1)"

text \<open>
  The Number value of a real: round to nearest, ties to even, with 53 bits of precision,
  gradual underflow below \<open>2^-1022\<close> and overflow to an infinity from \<open>2^1024\<close> on.
\<close>

definition round64 :: "rat \<Rightarrow> jsnum" where
  "round64 x = (if x = 0 then Fin 0 else
     (let p = max (ilog2 \<bar>x\<bar> - 52) (- 1074);
          m = rne (\<bar>x\<bar> / pow2 p);
          y = of_int m * pow2 p
      in if 2 ^ 1024 \<le> y then (if 0 < x then PosInf else NegInf)
         else Fin (if 0 < x then y else - y)))"

definition isFinite :: "jsnum \<Rightarrow> bool" where
  "isFinite v = (case v of Fin _ \<Rightarrow> True | _ \<Rightarrow> False)"

definition EPSILON :: jsnum where
  "EPSILON = Fin (pow2 (- 52))"

fun fneg :: "jsnum \<Rightarrow> jsnum" where
  "fneg NaN = NaN"
| "fneg PosInf = NegInf"
| "fneg NegInf = PosInf"
| "fneg (Fin a) = Fin (- a)"

fun fadd :: "jsnum \<Rightarrow> jsnum \<Rightarrow> jsnum" where
  "fadd NaN _ = NaN"
| "fadd _ NaN = NaN"
| "fadd PosInf NegInf = NaN"
| "fadd NegInf PosInf = NaN"
| "fadd PosInf _ = PosInf"
| "fadd NegInf _ = NegInf"
| "fadd (Fin a) PosInf = PosInf"
| "fadd (Fin a) NegInf = NegInf"
| "fadd (Fin a) (Fin b) = round64 (a + b)"

definition fsub :: "jsnum \<Rightarrow> jsnum \<Rightarrow> jsnum" where
  "fsub a b = fadd a (fneg b)"

text \<open>The infinity of the sign of a nonzero rational, not-a-number for zero.\<close>

definition infOfSign :: "rat \<Rightarrow> jsnum" where
  "infOfSign a = (if a = 0 then NaN else if 0 < a then PosInf else NegInf)"

fun fmul :: "jsnum \<Rightarrow> jsnum \<Rightarrow> jsnum" where
  "fmul NaN _ = NaN"
| "fmul _ NaN = NaN"
| "fmul PosInf PosInf = PosInf"
| "fmul PosInf NegInf = NegInf"
| "fmul NegInf PosInf = NegInf"
| "fmul NegInf NegInf = PosInf"
| "fmul PosInf (Fin b) = infOfSign b"
| "fmul NegInf (Fin b) = infOfSign (- b)"
| "fmul (Fin a) PosInf = infOfSign a"
| "fmul (Fin a) NegInf = infOfSign (- a)"
| "fmul (Fin a) (Fin b) = round64 (a * b)"

text \<open>
  Division.  The script divides by \<^verbatim>\<open>1e12\<close>, and by an operand only after
  \<^verbatim>\<open>b === 0\<close> has failed, so a zero divisor never reaches this function; there it
  returns what IEEE gives for a positive zero.
\<close>

fun fdiv :: "jsnum \<Rightarrow> jsnum \<Rightarrow> jsnum" where
  "fdiv NaN _ = NaN"
| "fdiv _ NaN = NaN"
| "fdiv PosInf PosInf = NaN"
| "fdiv PosInf NegInf = NaN"
| "fdiv NegInf PosInf = NaN"
| "fdiv NegInf NegInf = NaN"
| "fdiv PosInf (Fin b) = (if 0 \<le> b then PosInf else NegInf)"
| "fdiv NegInf (Fin b) = (if 0 \<le> b then NegInf else PosInf)"
| "fdiv (Fin a) PosInf = Fin 0"
| "fdiv (Fin a) NegInf = Fin 0"
| "fdiv (Fin a) (Fin b) = (if b = 0 then infOfSign a else round64 (a / b))"

text \<open>\<^verbatim>\<open>Math.round\<close>: the nearest integer, a tie going towards plus infinity.\<close>

fun Math_round :: "jsnum \<Rightarrow> jsnum" where
  "Math_round (Fin a) = Fin (of_int \<lfloor>a + 1 / 2\<rfloor>)"
| "Math_round v = v"

subsection \<open>Decimal digits\<close>

definition digitChars :: string where
  "digitChars = ''0123456789''"

definition isDigit :: "char \<Rightarrow> bool" where
  "isDigit c = (c \<in> set digitChars)"

text \<open>The value of a digit is its position among the ten digits.\<close>

definition digitVal :: "char \<Rightarrow> nat" where
  "digitVal c = (if isDigit c then length (takeWhile (\<lambda>d. d \<noteq> c) digitChars) else 0)"

text \<open>The value of a string of digits, most significant first (0 for the empty one).\<close>

definition digitsVal :: "string \<Rightarrow> nat" where
  "digitsVal ds = foldl (\<lambda>acc c. 10 * acc + digitVal c) 0 ds"

definition digitChar :: "nat \<Rightarrow> char" where
  "digitChar d = digitChars ! (d mod 10)"

text \<open>The decimal numeral of a natural number, without leading zeros.\<close>

fun digitsOf :: "nat \<Rightarrow> string" where
  "digitsOf n = (if n < 10 then [digitChar n] else digitsOf (n div 10) @ [digitChar n])"

declare digitsOf.simps [simp del]

subsection \<open>\<^verbatim>\<open>Number(string)\<close>\<close>

text \<open>
  The conversion of a string to a Number, for the strings the calculator can hold: an
  optional sign, then \<^verbatim>\<open>Infinity\<close> or decimal digits with an optional point and
  an optional exponent part; the empty string is 0 and everything else is not-a-number.
  (White space and the \<^verbatim>\<open>0x\<close>, \<^verbatim>\<open>0o\<close>, \<^verbatim>\<open>0b\<close> literals of the full
  grammar are left out: no such character ever enters \<^verbatim>\<open>currentInput\<close>.)
\<close>

definition parseExponent :: "string \<Rightarrow> int option" where
  "parseExponent s =
    (case s of
       [] \<Rightarrow> Some 0
     | c # r \<Rightarrow>
         if c = CHR ''e'' \<or> c = CHR ''E'' then
           (let (neg, ds) =
              (case r of
                 [] \<Rightarrow> (False, [])
               | d # r' \<Rightarrow> if d = CHR ''-'' then (True, r')
                           else if d = CHR ''+'' then (False, r') else (False, r))
            in if ds \<noteq> [] \<and> list_all isDigit ds
               then Some (if neg then - int (digitsVal ds) else int (digitsVal ds))
               else None)
         else None)"

definition parseUnsigned :: "string \<Rightarrow> jsnum" where
  "parseUnsigned s =
    (if s = ''Infinity'' then PosInf
     else
       (let ip = takeWhile isDigit s;
            r1 = dropWhile isDigit s;
            fp = (case r1 of [] \<Rightarrow> [] | c # r \<Rightarrow> if c = CHR ''.'' then takeWhile isDigit r else []);
            r2 = (case r1 of [] \<Rightarrow> [] | c # r \<Rightarrow> if c = CHR ''.'' then dropWhile isDigit r else r1)
        in if ip = [] \<and> fp = [] then NaN
           else (case parseExponent r2 of
                   None \<Rightarrow> NaN
                 | Some e \<Rightarrow>
                     round64 (of_nat (digitsVal (ip @ fp)) * pow10 (e - int (length fp))))))"

definition Number :: "string \<Rightarrow> jsnum" where
  "Number s =
    (case s of
       [] \<Rightarrow> Fin 0
     | c # r \<Rightarrow>
         if c = CHR ''-'' then fneg (parseUnsigned r)
         else if c = CHR ''+'' then parseUnsigned r
         else parseUnsigned s)"

subsection \<open>\<^verbatim>\<open>String(number)\<close>\<close>

text \<open>
  The conversion of a Number to a string follows \<^verbatim>\<open>Number::toString\<close> of the
  language definition: for a positive finite \<open>x\<close> it takes integers \<open>n\<close>, \<open>k\<close>, \<open>s\<close>
  with \<open>10^(k-1) \<le> s < 10^k\<close> such that the Number value of \<open>s * 10^(n-k)\<close> is \<open>x\<close> and
  \<open>k\<close> is as small as possible, and lays the digits of \<open>s\<close> out in positional notation
  when \<open>-5 \<le> n \<le> 21\<close> and in exponent notation otherwise.
\<close>

text \<open>The decimal exponent of a positive rational: \<open>10^(n-1) \<le> x < 10^n\<close>.\<close>

definition dexp :: "rat \<Rightarrow> int" where
  "dexp x = (if 1 \<le> x then int (floorlog 10 (nat \<lfloor>x\<rfloor>))
             else 1 - int (floorlog 10 (nat (\<lceil>1 / x\<rceil> - 1))))"

text \<open>
  The \<open>k\<close>-digit decimals next to \<open>x\<close> are \<open>lo * 10^(n-k)\<close> and \<open>(lo + 1) * 10^(n-k)\<close>;
  of those whose Number value is \<open>x\<close> the closer one is chosen (the even one on a tie).
\<close>

definition candidate :: "rat \<Rightarrow> int \<Rightarrow> nat \<Rightarrow> int option" where
  "candidate x n k =
    (let q = pow10 (n - int k);
         lo = \<lfloor>x / q\<rfloor>;
         hi = lo + 1;
         okl = (round64 (of_int lo * q) = Fin x);
         okh = (round64 (of_int hi * q) = Fin x)
     in if okl \<and> okh then
          (if x - of_int lo * q < of_int hi * q - x then Some lo
           else if of_int hi * q - x < x - of_int lo * q then Some hi
           else if even lo then Some lo else Some hi)
        else if okl then Some lo
        else if okh then Some hi
        else None)"

definition nearest :: "rat \<Rightarrow> int \<Rightarrow> nat \<Rightarrow> int" where
  "nearest x n k =
    (let q = pow10 (n - int k); lo = \<lfloor>x / q\<rfloor>; hi = lo + 1
     in if x - of_int lo * q < of_int hi * q - x then lo
        else if of_int hi * q - x < x - of_int lo * q then hi
        else if even lo then lo else hi)"

text \<open>
  The shortest digit string: the least \<open>k\<close> with a \<open>k\<close>-digit decimal whose Number value
  is \<open>x\<close>.  Seventeen digits always identify a binary64 value, so the search stops there.
\<close>

fun shortest :: "rat \<Rightarrow> int \<Rightarrow> nat \<Rightarrow> nat \<Rightarrow> nat \<times> int" where
  "shortest x n k 0 = (k, nearest x n k)"
| "shortest x n k (Suc fuel) =
    (case candidate x n k of
       Some s \<Rightarrow> (k, s)
     | None \<Rightarrow> shortest x n (Suc k) fuel)"

text \<open>The layout of the digits \<open>ds\<close> of \<open>s\<close> for the value \<open>s * 10^(n - length ds)\<close>.\<close>

definition layout :: "string \<Rightarrow> int \<Rightarrow> string" where
  "layout ds n =
    (let k = int (length ds) in
     if - 5 \<le> n \<and> n \<le> 21 then
       (if k \<le> n then ds @ replicate (nat (n - k)) CHR ''0''
        else if 0 < n then take (nat n) ds @ ''.'' @ drop (nat n) ds
        else ''0.'' @ replicate (nat (- n)) CHR ''0'' @ ds)
     else
       (let e = (if n < 1 then ''-'' else ''+'') @ digitsOf (nat \<bar>n - 1\<bar>) in
        if k = 1 then ds @ ''e'' @ e
        else take 1 ds @ ''.'' @ drop 1 ds @ ''e'' @ e))"

definition positiveToString :: "rat \<Rightarrow> string" where
  "positiveToString x =
    (let n = dexp x;
         (k, s) = shortest x n 1 16
     in if s = 10 ^ k then layout (digitsOf (nat (s div 10))) (n + 1)
        else layout (digitsOf (nat s)) n)"

fun String :: "jsnum \<Rightarrow> string" where
  "String NaN = ''NaN''"
| "String PosInf = ''Infinity''"
| "String NegInf = ''-Infinity''"
| "String (Fin x) =
    (if x = 0 then ''0''
     else if x < 0 then ''-'' @ positiveToString (- x)
     else positiveToString x)"

section \<open>The calculator state\<close>

text \<open>The object \<^verbatim>\<open>calculatorState\<close>; \<open>None\<close> stands for \<^verbatim>\<open>null\<close>.\<close>

record calculatorState =
  firstOperand :: "jsnum option"
  secondOperand :: "jsnum option"
  operator :: "string option"
  currentInput :: string
  hasCalculated :: bool
  isError :: bool

definition initialState :: calculatorState where
  "initialState =
    \<lparr>firstOperand = None, secondOperand = None, operator = None,
     currentInput = ''0'', hasCalculated = False, isError = False\<rparr>"

subsection \<open>Utility functions\<close>

definition checkErrorState :: "calculatorState \<Rightarrow> bool" where
  "checkErrorState s = (isError s \<or> currentInput s = ''Error'')"

definition formatDisplayNumber :: "jsnum \<Rightarrow> string" where
  "formatDisplayNumber number =
    (if \<not> isFinite number then ''Error''
     else
       (let rounded = fdiv (Math_round (fmul (fadd number EPSILON) (Fin (10 ^ 12)))) (Fin (10 ^ 12))
        in String rounded))"

definition getCurrentInputAsNumber :: "calculatorState \<Rightarrow> jsnum" where
  "getCurrentInputAsNumber s =
    (if currentInput s = ''.'' \<or> currentInput s = ''-.'' then Fin 0
     else Number (currentInput s))"

definition performCalculation :: "jsnum \<Rightarrow> string \<Rightarrow> jsnum \<Rightarrow> jsnum" where
  "performCalculation a opr b =
    (if opr = ''+'' then fadd a b
     else if opr = ''-'' then fsub a b
     else if opr = ''*'' then fmul a b
     else if opr = ''/'' then (if b = Fin 0 then NaN else fdiv a b)
     else NaN)"

text \<open>A string or \<^verbatim>\<open>null\<close> used as a condition: true unless null or empty.\<close>

definition truthy :: "string option \<Rightarrow> bool" where
  "truthy v = (case v of None \<Rightarrow> False | Some t \<Rightarrow> t \<noteq> [])"

text \<open>\<^verbatim>\<open>parts.join(" ")\<close>.\<close>

fun joinSpace :: "string list \<Rightarrow> string" where
  "joinSpace [] = []"
| "joinSpace [p] = p"
| "joinSpace (p # ps) = p @ '' '' @ joinSpace ps"

text \<open>
  \<^verbatim>\<open>updateDisplay\<close> writes the expression line, the result line and the error
  styling into the page and leaves the state alone: it is the projection of the state
  that the user sees.
\<close>

definition updateDisplay :: "calculatorState \<Rightarrow> string \<times> string \<times> bool" where
  "updateDisplay s =
    (joinSpace
       ((case firstOperand s of None \<Rightarrow> [] | Some a \<Rightarrow> [formatDisplayNumber a]) @
        (if truthy (operator s) then [the (operator s)] else []) @
        (case secondOperand s of
           None \<Rightarrow> []
         | Some b \<Rightarrow> if \<not> hasCalculated s then [formatDisplayNumber b] else [])),
     currentInput s,
     currentInput s = ''Error'')"

definition resetStateForNewInput :: "calculatorState \<Rightarrow> calculatorState" where
  "resetStateForNewInput s =
    (if checkErrorState s \<or> hasCalculated s then
       s\<lparr>firstOperand := None, secondOperand := None, operator := None,
         currentInput := ''0'', hasCalculated := False, isError := False\<rparr>
     else s)"

subsection \<open>Operation functions\<close>

definition appendDigit :: "string \<Rightarrow> calculatorState \<Rightarrow> calculatorState" where
  "appendDigit digit s0 =
    (let s = resetStateForNewInput s0 in
     if currentInput s = ''0'' then s\<lparr>currentInput := digit\<rparr>
     else if currentInput s = ''-0'' then s\<lparr>currentInput := ''-'' @ digit\<rparr>
     else s\<lparr>currentInput := currentInput s @ digit\<rparr>)"

definition addDecimalPoint :: "calculatorState \<Rightarrow> calculatorState" where
  "addDecimalPoint s0 =
    (let s = resetStateForNewInput s0 in
     if CHR ''.'' \<notin> set (currentInput s) then s\<lparr>currentInput := currentInput s @ ''.''\<rparr>
     else s)"

definition startsWithMinus :: "string \<Rightarrow> bool" where
  "startsWithMinus t = (case t of [] \<Rightarrow> False | c # _ \<Rightarrow> c = CHR ''-'')"

definition toggleSign :: "calculatorState \<Rightarrow> calculatorState" where
  "toggleSign s =
    (if checkErrorState s then s
     else if currentInput s = ''0'' \<or> currentInput s = ''0.'' then s
     else s\<lparr>currentInput :=
            (if startsWithMinus (currentInput s) then drop 1 (currentInput s)
             else ''-'' @ currentInput s)\<rparr>)"

definition removeLastCharacter :: "calculatorState \<Rightarrow> calculatorState" where
  "removeLastCharacter s =
    (if checkErrorState s then s
     else if hasCalculated s then s
     else if length (currentInput s) \<le> 1 \<or>
             (length (currentInput s) = 2 \<and> startsWithMinus (currentInput s))
       then s\<lparr>currentInput := ''0''\<rparr>
     else if butlast (currentInput s) = ''-'' then s\<lparr>currentInput := ''0''\<rparr>
     else s\<lparr>currentInput := butlast (currentInput s)\<rparr>)"

definition clearCalculator :: "calculatorState \<Rightarrow> calculatorState" where
  "clearCalculator s =
    s\<lparr>firstOperand := None, secondOperand := None, operator := None,
      currentInput := ''0'', hasCalculated := False, isError := False\<rparr>"

text \<open>The five assignments made on a non-finite result.\<close>

definition enterError :: "calculatorState \<Rightarrow> calculatorState" where
  "enterError s =
    s\<lparr>currentInput := ''Error'', isError := True,
      firstOperand := None, secondOperand := None, operator := None\<rparr>"

definition selectOperator :: "string \<Rightarrow> calculatorState \<Rightarrow> calculatorState" where
  "selectOperator opr s0 =
    (if checkErrorState s0 then s0
     else
       (let inputNumber = getCurrentInputAsNumber s0;
            s = (if hasCalculated s0 then s0\<lparr>hasCalculated := False, secondOperand := None\<rparr>
                 else s0)
        in case firstOperand s of
             None \<Rightarrow>
               s\<lparr>firstOperand := Some inputNumber, operator := Some opr, currentInput := ''0''\<rparr>
           | Some a \<Rightarrow>
               if truthy (operator s) \<and> currentInput s \<noteq> ''0'' then
                 (let s1 = s\<lparr>secondOperand := Some inputNumber\<rparr>;
                      result = performCalculation a (the (operator s1)) inputNumber
                  in if \<not> isFinite result then enterError s1
                     else s1\<lparr>firstOperand := Some result, secondOperand := None,
                             operator := Some opr, currentInput := ''0''\<rparr>)
               else s\<lparr>operator := Some opr\<rparr>))"

text \<open>
  The constant \<^verbatim>\<open>secondOperand\<close> of \<^verbatim>\<open>calculateResult\<close>: on a repeated
  \<^verbatim>\<open>=\<close> the stored second operand (\<^verbatim>\<open>??\<close> falling back to the input when it is
  null), the input otherwise.
\<close>

definition equalsOperand :: "calculatorState \<Rightarrow> jsnum" where
  "equalsOperand s =
    (let inputNumber = getCurrentInputAsNumber s in
     if hasCalculated s
     then (case secondOperand s of None \<Rightarrow> inputNumber | Some b \<Rightarrow> b)
     else inputNumber)"

definition calculateResult :: "calculatorState \<Rightarrow> calculatorState" where
  "calculateResult s =
    (if checkErrorState s then s
     else
       (case (operator s, firstOperand s) of
          (Some opr, Some a) \<Rightarrow>
            (let operand = equalsOperand s;
                 result = performCalculation a opr operand
             in if \<not> isFinite result then enterError s
                else s\<lparr>secondOperand := Some operand, firstOperand := Some result,
                       currentInput := formatDisplayNumber result, hasCalculated := True\<rparr>)
        | _ \<Rightarrow> s))"

subsection \<open>Event handlers\<close>

text \<open>
  The commands the two listeners dispatch: a digit button or key carries its digit as a
  string, an operator button or key its symbol.
\<close>

datatype command =
  Digit string | DecimalPoint | Operator string | Sign | Backspace | Clear | Equals

fun step :: "calculatorState \<Rightarrow> command \<Rightarrow> calculatorState" where
  "step s (Digit d) = appendDigit d s"
| "step s (Operator opr) = selectOperator opr s"
| "step s DecimalPoint = addDecimalPoint s"
| "step s Clear = clearCalculator s"
| "step s Backspace = removeLastCharacter s"
| "step s Sign = toggleSign s"
| "step s Equals = calculateResult s"

text \<open>
  The keys and buttons of the page: the ten digits (the key listener tests
  \<^verbatim>\<open>key >= "0" && key <= "9"\<close>) and the four operators (it tests
  \<^verbatim>\<open>["+", "-", "*", "/"].includes(key)\<close>).
\<close>

fun validCommand :: "command \<Rightarrow> bool" where
  "validCommand (Digit d) = (d \<in> set (map (\<lambda>c. [c]) digitChars))"
| "validCommand (Operator opr) = (opr \<in> set [''+'', ''-'', ''*'', ''/''])"
| "validCommand _ = True"

definition run :: "command list \<Rightarrow> calculatorState" where
  "run cs = foldl step initialState cs"

text \<open>The states the calculator can be in: those some sequence of commands leads to.\<close>

inductive reachable :: "calculatorState \<Rightarrow> bool" where
  reachable_init: "reachable initialState"
| reachable_step: "reachable s \<Longrightarrow> validCommand c \<Longrightarrow> reachable (step s c)"

section \<open>Notions used in the properties\<close>

text \<open>
  The characters \<^verbatim>\<open>String\<close> can produce for any Number, the letters of
  \<^verbatim>\<open>Infinity\<close> and \<^verbatim>\<open>NaN\<close> included.  The invariant uses this alphabet only to tell a
  printed Number from \<^verbatim>\<open>Error\<close>; it does not describe well-formed numbers.
\<close>

definition numberChars :: "char set" where
  "numberChars = set ''0123456789.-+eInfinityNaN''"

text \<open>
  A partial number as the user types it: an optional leading \<^verbatim>\<open>-\<close>, digits, an
  optional single \<^verbatim>\<open>.\<close>, digits.
\<close>

fun afterSign :: "string \<Rightarrow> bool" where
  "afterSign [] = True"
| "afterSign (c # r) = (if c = CHR ''.'' then list_all isDigit r else isDigit c \<and> afterSign r)"

definition validPartialNumber :: "string \<Rightarrow> bool" where
  "validPartialNumber t = (if startsWithMinus t then afterSign (drop 1 t) else afterSign t)"

text \<open>A string that does not start with two minus signs.\<close>

definition singleSign :: "string \<Rightarrow> bool" where
  "singleSign t = (\<not> (startsWithMinus t \<and> startsWithMinus (drop 1 t)))"

text \<open>What Sign makes of a string: a leading \<^verbatim>\<open>-\<close> removed, or one prepended.\<close>

definition signToggled :: "string \<Rightarrow> string" where
  "signToggled t = (if startsWithMinus t then drop 1 t else ''-'' @ t)"

text \<open>
  The display of a post-equals state: \<open>firstOperand\<close> holds a finite result and
  \<open>currentInput\<close> is \<^verbatim>\<open>formatDisplayNumber\<close> of it, or that string with its sign toggled.
\<close>

definition postEqualsDisplay :: "calculatorState \<Rightarrow> bool" where
  "postEqualsDisplay s =
    (case firstOperand s of
       None \<Rightarrow> False
     | Some a \<Rightarrow>
         isFinite a \<and>
         (currentInput s = formatDisplayNumber a \<or>
          currentInput s = signToggled (formatDisplayNumber a)))"

text \<open>The state the script puts itself in on a non-finite result.\<close>

definition errorEntered :: "calculatorState \<Rightarrow> bool" where
  "errorEntered s =
    (currentInput s = ''Error'' \<and> isError s \<and>
     firstOperand s = None \<and> secondOperand s = None \<and> operator s = None)"

text \<open>The invariant of the reachable states.\<close>

definition stateInv :: "calculatorState \<Rightarrow> bool" where
  "stateInv s =
    ((isError s \<longrightarrow> currentInput s = ''Error'') \<and>
     (\<not> isError s \<longrightarrow> set (currentInput s) \<subseteq> numberChars) \<and>
     (hasCalculated s \<and> \<not> isError s \<longrightarrow>
        firstOperand s \<noteq> None \<and> truthy (operator s) \<and> secondOperand s \<noteq> None) \<and>
     (\<not> hasCalculated s \<and> \<not> isError s \<longrightarrow> validPartialNumber (currentInput s)) \<and>
     (hasCalculated s \<and> \<not> isError s \<longrightarrow> singleSign (currentInput s)) \<and>
     operator s \<noteq> Some [])"



section \<open>Properties of the arithmetic\<close>

subsection \<open>Rounding\<close>

lemma pow2_pos: "0 < pow2 i"
  by (simp add: pow2_def)

lemma pow2_nat: "pow2 (int k) = 2 ^ k"
  by (simp add: pow2_def)

lemma pow2_add: "pow2 (i + j) = pow2 i * pow2 j"
proof -
  have "pow2 i = 2 powi i" for i
    by (simp add: pow2_def power_int_def field_simps)
  then show ?thesis by (simp add: power_int_add)
qed

lemma pow2_mono: "i \<le> j \<Longrightarrow> pow2 i \<le> pow2 j"
proof -
  have "pow2 i = 2 powi i" for i
    by (simp add: pow2_def power_int_def field_simps)
  then show "i \<le> j \<Longrightarrow> pow2 i \<le> pow2 j" by (simp add: power_int_increasing)
qed

lemma bitlen_eqI:
  assumes "2 ^ k \<le> f" "f < 2 ^ Suc k"
  shows "bitlen f = int k + 1"
proof (rule antisym)
  show "bitlen f \<le> int k + 1"
    using assms by (simp add: bitlen_le_iff_power nat_add_distrib)
  show "int k + 1 \<le> bitlen f"
    using assms by (simp add: bitlen_ge_iff_power nat_add_distrib)
qed

lemma ilog2_unique:
  assumes "pow2 e \<le> x" "x < pow2 (e + 1)"
  shows "ilog2 x = e"
proof (cases "0 \<le> e")
  case True
  define k where "k = nat e"
  have e: "e = int k" using True by (simp add: k_def)
  have lo: "(2::rat) ^ k \<le> x" and hi: "x < 2 ^ Suc k"
    using assms by (simp_all add: e pow2_def nat_add_distrib)
  have "(1::rat) \<le> 2 ^ k" by simp
  then have x1: "1 \<le> x" using lo by linarith
  have "of_int (2 ^ k) \<le> x" using lo by simp
  then have f1: "2 ^ k \<le> \<lfloor>x\<rfloor>" by (simp only: le_floor_iff)
  have "x < of_int (2 ^ Suc k)" using hi by simp
  then have f2: "\<lfloor>x\<rfloor> < 2 ^ Suc k" by (simp only: floor_less_iff)
  show ?thesis using bitlen_eqI [OF f1 f2] x1 by (simp add: ilog2_def e)
next
  case False
  define j where "j = nat (- e) - 1"
  have e: "e = - int (Suc j)" using False by (simp add: j_def)
  have ne: "nat (- e) = Suc j" "\<not> 0 \<le> e" by (simp_all add: e)
  have lo: "1 / 2 ^ Suc j \<le> x"
    using assms(1) unfolding pow2_def by (simp only: ne if_False)
  have "e + 1 = - int j" by (simp add: e)
  then have "pow2 (e + 1) = 1 / 2 ^ j"
    by (cases "j = 0") (simp_all add: pow2_def)
  then have hi: "x < 1 / 2 ^ j"
    using assms(2) by simp
  have xpos: "0 < x" using lo by (smt (verit) divide_pos_pos zero_less_numeral zero_less_one zero_less_power less_le_trans)
  have "1 / (2::rat) ^ j \<le> 1" by (simp add: divide_le_eq)
  then have x1: "\<not> 1 \<le> x" using hi by linarith
  have a: "1 / x \<le> 2 ^ Suc j"
    using lo xpos by (simp add: field_simps)
  have b: "2 ^ j < 1 / x"
    using hi xpos by (simp add: field_simps)
  have "1 / x \<le> of_int (2 ^ Suc j)" using a by simp
  then have c1: "\<lceil>1 / x\<rceil> \<le> 2 ^ Suc j" by (simp only: ceiling_le_iff)
  have "of_int (2 ^ j) < 1 / x" using b by simp
  then have c2: "2 ^ j < \<lceil>1 / x\<rceil>" by (simp only: less_ceiling_iff)
  have "bitlen (\<lceil>1 / x\<rceil> - 1) = int j + 1"
    by (rule bitlen_eqI) (use c1 c2 in auto)
  then show ?thesis using x1 by (simp add: ilog2_def e)
qed

lemma rne_near:
  assumes "0 \<le> d" "d < 1 / 2"
  shows "rne (of_int M + d) = M"
proof -
  have "\<lfloor>of_int M + d\<rfloor> = M"
    using assms by (simp add: floor_unique)
  then show ?thesis using assms by (simp add: rne_def Let_def)
qed

lemma round64_near:
  assumes M: "2 ^ 52 \<le> M" "M < 2 ^ 53"
    and p: "- 1074 \<le> p" "p \<le> 971"
    and d: "0 \<le> d" "d < 1 / 2"
  shows "round64 ((of_int M + d) * pow2 p) = Fin (of_int M * pow2 p)"
proof -
  define x where "x = (of_int M + d) * pow2 p"
  have Mr: "(2::rat) ^ 52 \<le> of_int M" "(of_int M :: rat) + 1 \<le> 2 ^ 53"
    using M by (simp_all flip: of_int_le_iff of_int_less_iff add: int_le_real_less)
  have xpos: "0 < x" using Mr d pow2_pos [of p] by (simp add: x_def)
  have "pow2 52 = 2 ^ 52" "pow2 53 = 2 ^ 53" by (simp_all add: pow2_def)
  then have "pow2 (p + 52) = 2 ^ 52 * pow2 p" "pow2 (p + 52 + 1) = 2 ^ 53 * pow2 p"
    using pow2_add [of p 52] pow2_add [of p 53] by (simp_all add: add.commute mult.commute add.assoc)
  then have "pow2 (p + 52) \<le> x" "x < pow2 (p + 52 + 1)"
    using Mr d pow2_pos [of p] by (simp_all add: x_def)
  then have il: "ilog2 x = p + 52" by (rule ilog2_unique)
  have ax: "\<bar>x\<bar> = x" using xpos by simp
  have q: "max (ilog2 x - 52) (- 1074) = p" using il p by simp
  have sc: "x / pow2 p = of_int M + d" using pow2_pos [of p] by (simp add: x_def)
  have "of_int M * pow2 p < 2 ^ 53 * pow2 971"
  proof -
    have "(of_int M :: rat) < 2 ^ 53" using Mr by linarith
    moreover have "pow2 p \<le> pow2 971" using p by (intro pow2_mono)
    ultimately show ?thesis
      using pow2_pos [of p] Mr by (intro mult_less_le_imp_less) auto
  qed
  also have "(2::rat) ^ 53 * pow2 971 = 2 ^ 1024" by (simp add: pow2_def flip: power_add)
  finally have y: "\<not> 2 ^ 1024 \<le> of_int M * pow2 p" by simp
  show ?thesis
    unfolding x_def [symmetric] round64_def
    using xpos y by (simp add: ax q sc rne_near [OF d] Let_def)
qed


lemma normalise_int:
  fixes n :: int
  assumes "0 < n" "n < 2 ^ 53"
  obtains k :: nat where "k \<le> 52" "2 ^ 52 \<le> n * 2 ^ k" "n * 2 ^ k < 2 ^ 53"
proof -
  define b where "b = nat (bitlen n)"
  have bpos: "0 < bitlen n"
    using assms(1) bitlen_eq_zero_iff [of n] bitlen_nonneg [of n] by linarith
  have bb: "bitlen n = int b" using bpos by (simp add: b_def)
  have lo: "2 ^ (b - 1) \<le> n" and hi: "n < 2 ^ b"
    using bitlen_bounds [OF assms(1)] bpos by (simp_all add: b_def nat_diff_distrib)
  have b1: "1 \<le> b" using bpos by (simp add: b_def)
  have b53: "b \<le> 53"
  proof (rule ccontr)
    assume "\<not> b \<le> 53"
    then have "53 \<le> b - 1" by simp
    then have "(2::int) ^ 53 \<le> 2 ^ (b - 1)" by (intro power_increasing) auto
    with lo assms(2) show False by linarith
  qed
  define k where "k = 53 - b"
  have k: "k \<le> 52" using b1 by (simp add: k_def)
  have "(2::int) ^ 52 = 2 ^ (b - 1) * 2 ^ k"
    using b1 b53 by (simp add: k_def flip: power_add)
  also have "\<dots> \<le> n * 2 ^ k" using lo by (intro mult_right_mono) auto
  finally have A: "2 ^ 52 \<le> n * 2 ^ k" .
  have "n * 2 ^ k < 2 ^ b * 2 ^ k" using hi by (intro mult_strict_right_mono) auto
  also have "\<dots> = 2 ^ 53" using b53 by (simp add: k_def flip: power_add)
  finally have B: "n * 2 ^ k < 2 ^ 53" .
  show thesis using that [OF k A B] .
qed

lemma pow2_neg_mult: "2 ^ k * pow2 (j - int k) = pow2 j"
proof -
  have "pow2 (int k) * pow2 (j - int k) = pow2 j"
    by (simp flip: pow2_add)
  then show ?thesis by (simp add: pow2_nat)
qed

lemma round64_int_shift:
  assumes "0 < n" "n < 2 ^ 53" "0 \<le> j" "j \<le> 971"
  shows "round64 (of_int n * pow2 j) = Fin (of_int n * pow2 j)"
proof -
  obtain k :: nat where k: "k \<le> 52" "2 ^ 52 \<le> n * 2 ^ k" "n * 2 ^ k < 2 ^ 53"
    using normalise_int [OF assms(1,2)] by blast
  have p: "- 1074 \<le> j - int k" "j - int k \<le> 971" using k(1) assms(3,4) by simp_all
  have eq: "of_int (n * 2 ^ k) * pow2 (j - int k) = of_int n * pow2 j"
    using pow2_neg_mult [of k j] by (simp add: mult.assoc)
  have "round64 ((of_int (n * 2 ^ k) + 0) * pow2 (j - int k)) =
      Fin (of_int (n * 2 ^ k) * pow2 (j - int k))"
    by (rule round64_near [OF k(2,3) p]) simp_all
  then show ?thesis by (simp only: eq add_0_right)
qed

lemma round64_int:
  assumes "0 < n" "n < 2 ^ 53"
  shows "round64 (of_int n) = Fin (of_int n)"
  using round64_int_shift [OF assms, of 0] by (simp add: pow2_def)

lemma round64_int_eps:
  assumes "4 \<le> n" "n < 2 ^ 53"
  shows "round64 (of_int n + pow2 (- 52)) = Fin (of_int n)"
proof -
  have n0: "0 < n" using assms(1) by simp
  obtain k :: nat where k: "k \<le> 52" "2 ^ 52 \<le> n * 2 ^ k" "n * 2 ^ k < 2 ^ 53"
    using normalise_int [OF n0 assms(2)] by blast
  have k50: "k \<le> 50"
  proof (rule ccontr)
    assume "\<not> k \<le> 50"
    then have "51 \<le> k" by simp
    then have "(2::int) ^ 51 \<le> 2 ^ k" by (intro power_increasing) auto
    then have "4 * (2::int) ^ 51 \<le> n * 2 ^ k"
      using assms(1) by (intro mult_mono) auto
    with k(3) show False by simp
  qed
  define d where "d = pow2 (int k - 52)"
  have d0: "0 \<le> d" using pow2_pos [of "int k - 52"] by (simp add: d_def)
  have "d \<le> pow2 (- 2)" unfolding d_def using k50 by (intro pow2_mono) simp
  then have d1: "d < 1 / 2" by (simp add: pow2_def)
  have p: "- 1074 \<le> - int k" "- int k \<le> 971" using k(1) by simp_all
  have e1: "of_int (n * 2 ^ k) * pow2 (- int k) = of_int n"
    using pow2_neg_mult [of k 0] by (simp add: mult.assoc pow2_def)
  have e2: "d * pow2 (- int k) = pow2 (- 52)"
    by (simp add: d_def flip: pow2_add)
  have "(of_int (n * 2 ^ k) + d) * pow2 (- int k) = of_int n + pow2 (- 52)"
    using e1 e2 by (simp only: distrib_right)
  then show ?thesis
    using round64_near [OF k(2,3) p d0 d1] by (simp only: e1)
qed

lemma formatDisplayNumber_int:
  assumes "4 \<le> n" "n * 5 ^ 12 < 2 ^ 53"
  shows "formatDisplayNumber (Fin (of_int n)) = String (Fin (of_int n))"
proof -
  have n53: "n < 2 ^ 53" using assms by simp
  have n0: "0 < n * 5 ^ 12" using assms(1) by simp
  have a: "fadd (Fin (of_int n)) EPSILON = Fin (of_int n)"
    using round64_int_eps [OF assms(1) n53] by (simp add: EPSILON_def)
  have e: "of_int (n * 5 ^ 12) * pow2 12 = (of_int n :: rat) * 10 ^ 12"
    by (simp add: pow2_def)
  have "round64 (of_int (n * 5 ^ 12) * pow2 12) = Fin (of_int (n * 5 ^ 12) * pow2 12)"
    by (rule round64_int_shift [OF n0 assms(2)]) simp_all
  then have "round64 (of_int n * 10 ^ 12) = Fin (of_int n * 10 ^ 12)"
    by (simp only: e)
  then have m: "fmul (Fin (of_int n)) (Fin (10 ^ 12)) = Fin (of_int (n * 10 ^ 12))"
    by simp
  have r: "Math_round (Fin (of_int (n * 10 ^ 12))) = Fin (of_int (n * 10 ^ 12))"
  proof -
    have "\<lfloor>(of_int (n * 10 ^ 12) :: rat) + 1 / 2\<rfloor> = n * 10 ^ 12"
      by (rule floor_unique) simp_all
    then show ?thesis by (simp only: Math_round.simps)
  qed
  have d: "fdiv (Fin (of_int (n * 10 ^ 12))) (Fin (10 ^ 12)) = Fin (of_int n)"
    using round64_int [of n] assms(1) n53 by simp
  have f: "isFinite (Fin (of_int n))" by (simp add: isFinite_def)
  show ?thesis
    unfolding formatDisplayNumber_def Let_def
    by (simp only: f a m r d not_True_eq_False if_False)
qed

subsection \<open>The characters of a printed number\<close>

lemma digitChar_in: "digitChar d \<in> set digitChars"
proof -
  have "d mod 10 < length digitChars" by (simp add: digitChars_def)
  then show ?thesis unfolding digitChar_def by (rule nth_mem)
qed

lemma digitsOf_chars: "set (digitsOf n) \<subseteq> set digitChars"
proof (induction n rule: digitsOf.induct)
  case (1 n)
  show ?case
  proof (cases "n < 10")
    case True
    then show ?thesis using digitChar_in [of n] by (subst digitsOf.simps) simp
  next
    case False
    then show ?thesis
      using "1.IH" digitChar_in [of n] by (subst digitsOf.simps) simp
  qed
qed

lemma digitChars_number: "set digitChars \<subseteq> numberChars"
  by (simp add: digitChars_def numberChars_def)

lemma layout_chars:
  assumes "set ds \<subseteq> set digitChars"
  shows "set (layout ds n) \<subseteq> numberChars"
proof -
  have ds: "set ds \<subseteq> numberChars" using assms digitChars_number by blast
  have t: "set (take i ds) \<subseteq> numberChars" for i
    using ds set_take_subset [of i ds] by blast
  have dr: "set (drop i ds) \<subseteq> numberChars" for i
    using ds set_drop_subset [of i ds] by blast
  have dg: "set (digitsOf m) \<subseteq> numberChars" for m
    using digitsOf_chars [of m] digitChars_number by blast
  have c: "CHR ''0'' \<in> numberChars" "CHR ''.'' \<in> numberChars" "CHR ''e'' \<in> numberChars"
    "CHR ''-'' \<in> numberChars" "CHR ''+'' \<in> numberChars"
    by (simp_all add: numberChars_def)
  show ?thesis
    unfolding layout_def Let_def
    using ds t dr dg c by (auto simp del: digitsOf.simps)
qed

lemma positiveToString_chars: "set (positiveToString x) \<subseteq> numberChars"
  unfolding positiveToString_def Let_def
  by (auto simp del: digitsOf.simps split: prod.splits
      dest: subsetD [OF layout_chars [OF digitsOf_chars]])

lemma String_chars: "set (String v) \<subseteq> numberChars"
proof (cases v)
  case (Fin x)
  have "CHR ''-'' \<in> numberChars" "CHR ''0'' \<in> numberChars" by (simp_all add: numberChars_def)
  then show ?thesis using positiveToString_chars by (auto simp: Fin)
qed (simp_all add: numberChars_def)

lemma digitsOf_head: "\<exists>c r. digitsOf n = c # r \<and> c \<in> set digitChars"
proof (induction n rule: digitsOf.induct)
  case (1 n)
  show ?case
  proof (cases "n < 10")
    case True
    then show ?thesis using digitChar_in [of n] by (subst digitsOf.simps) simp
  next
    case False
    then obtain c r where "digitsOf (n div 10) = c # r" "c \<in> set digitChars"
      using "1.IH" by blast
    then show ?thesis using False by (subst digitsOf.simps) simp
  qed
qed

lemma layout_head:
  assumes "ds = c # r" "c \<noteq> CHR ''-''"
  shows "\<not> startsWithMinus (layout ds n)"
proof -
  have "take (nat n) ds = c # take (nat n - 1) r" if "0 < n"
    using that assms(1) by (cases "nat n") simp_all
  then show ?thesis
    using assms by (auto simp: layout_def Let_def startsWithMinus_def)
qed

lemma positiveToString_head: "\<not> startsWithMinus (positiveToString x)"
proof -
  have m: "CHR ''-'' \<notin> set digitChars" by (simp add: digitChars_def)
  have "\<not> startsWithMinus (layout (digitsOf k) n)" for k n
  proof -
    obtain c r where "digitsOf k = c # r" "c \<in> set digitChars"
      using digitsOf_head by blast
    then show ?thesis using m by (intro layout_head [of _ c r]) auto
  qed
  then show ?thesis
    unfolding positiveToString_def Let_def by (simp split: prod.splits)
qed

lemma String_singleSign: "singleSign (String v)"
  using positiveToString_head
  by (cases v) (auto simp: singleSign_def startsWithMinus_def)

lemma formatDisplayNumber_singleSign: "singleSign (formatDisplayNumber v)"
  using String_singleSign
  by (simp add: formatDisplayNumber_def Let_def singleSign_def startsWithMinus_def)

lemma singleSign_toggle:
  "singleSign t \<Longrightarrow> singleSign (if startsWithMinus t then drop 1 t else ''-'' @ t)"
  by (auto simp: singleSign_def startsWithMinus_def split: list.splits)

lemma formatDisplayNumber_chars:
  "isFinite v \<Longrightarrow> set (formatDisplayNumber v) \<subseteq> numberChars"
  by (simp add: formatDisplayNumber_def String_chars)

lemma numberChars_no_E: "CHR ''E'' \<notin> numberChars"
  by (simp add: numberChars_def)

subsection \<open>Partial numbers\<close>

lemma afterSign_append_digit: "afterSign t \<Longrightarrow> isDigit c \<Longrightarrow> afterSign (t @ [c])"
  by (induction t) auto

lemma afterSign_append_dot: "afterSign t \<Longrightarrow> CHR ''.'' \<notin> set t \<Longrightarrow> afterSign (t @ ''.'')"
  by (induction t) auto

lemma afterSign_butlast: "afterSign t \<Longrightarrow> afterSign (butlast t)"
proof (induction t)
  case (Cons c r)
  then show ?case
    by (cases "r = []") (auto simp: list_all_iff dest: in_set_butlastD)
qed simp

lemma minus_not_digit: "\<not> isDigit CHR ''-''"
  by (simp add: isDigit_def digitChars_def)

lemma afterSign_no_minus: "afterSign t \<Longrightarrow> \<not> startsWithMinus t"
  by (cases t) (auto simp: startsWithMinus_def minus_not_digit)

lemma afterSign_valid: "afterSign t \<Longrightarrow> validPartialNumber t"
  by (simp add: validPartialNumber_def afterSign_no_minus)

lemma valid_minus: "afterSign t \<Longrightarrow> validPartialNumber (''-'' @ t)"
  by (simp add: validPartialNumber_def startsWithMinus_def)

lemma valid_cases:
  assumes "validPartialNumber t"
  obtains "afterSign t" "\<not> startsWithMinus t" | r where "t = CHR ''-'' # r" "afterSign r"
  using assms by (cases t) (auto simp: validPartialNumber_def startsWithMinus_def split: if_splits)

lemma valid_append_digit:
  assumes "validPartialNumber t" "isDigit c"
  shows "validPartialNumber (t @ [c])"
  using assms(1)
proof (cases rule: valid_cases)
  case 1
  then show ?thesis using assms(2) by (intro afterSign_valid afterSign_append_digit)
next
  case (2 r)
  then show ?thesis using assms(2) valid_minus [OF afterSign_append_digit] by simp
qed

lemma valid_append_dot:
  assumes "validPartialNumber t" "CHR ''.'' \<notin> set t"
  shows "validPartialNumber (t @ ''.'')"
  using assms(1)
proof (cases rule: valid_cases)
  case 1
  then show ?thesis using assms(2) by (intro afterSign_valid afterSign_append_dot)
next
  case (2 r)
  then show ?thesis using assms(2) valid_minus [OF afterSign_append_dot, of r] by simp
qed

lemma valid_butlast:
  assumes "validPartialNumber t"
  shows "validPartialNumber (butlast t)"
  using assms
proof (cases rule: valid_cases)
  case 1
  then show ?thesis by (intro afterSign_valid afterSign_butlast)
next
  case (2 r)
  show ?thesis
  proof (cases "r = []")
    case True
    then show ?thesis using 2 by (simp add: validPartialNumber_def startsWithMinus_def)
  next
    case False
    then show ?thesis using 2 valid_minus [OF afterSign_butlast, of r] by simp
  qed
qed

lemma valid_toggle:
  assumes "validPartialNumber t"
  shows "validPartialNumber (if startsWithMinus t then drop 1 t else ''-'' @ t)"
  using assms
proof (cases rule: valid_cases)
  case 1
  then show ?thesis using valid_minus by simp
next
  case (2 r)
  then show ?thesis by (simp add: startsWithMinus_def afterSign_valid)
qed

lemma valid_digit: "isDigit c \<Longrightarrow> validPartialNumber [c]"
  by (simp add: validPartialNumber_def startsWithMinus_def minus_not_digit)

lemma valid_zero: "validPartialNumber ''0''"
  by (simp add: validPartialNumber_def startsWithMinus_def isDigit_def digitChars_def)

subsection \<open>The invariant\<close>

lemma numberChars_simps:
  "CHR ''0'' \<in> numberChars" "CHR ''-'' \<in> numberChars" "CHR ''.'' \<in> numberChars"
  "CHR ''E'' \<notin> numberChars"
  by (simp_all add: numberChars_def)

lemma isDigit_numberChars: "isDigit c \<Longrightarrow> c \<in> numberChars"
  using digitChars_number by (auto simp: isDigit_def)

lemma Error_not_number: "set t \<subseteq> numberChars \<Longrightarrow> t \<noteq> ''Error''"
  using numberChars_simps(4) by auto

lemma validDigit_char:
  assumes "validCommand (Digit d)"
  obtains c where "d = [c]" "isDigit c"
  using assms by (auto simp: isDigit_def digitChars_def)

lemma inv_not_error: "stateInv s \<Longrightarrow> checkErrorState s = isError s"
  using Error_not_number by (auto simp: stateInv_def checkErrorState_def)

lemma inv_initial: "stateInv initialState"
  by (simp add: stateInv_def initialState_def valid_zero numberChars_simps)

lemma inv_reset: "stateInv s \<Longrightarrow> stateInv (resetStateForNewInput s)"
  by (auto simp: stateInv_def resetStateForNewInput_def valid_zero numberChars_simps)

lemma reset_fresh:
  "stateInv s \<Longrightarrow> \<not> isError (resetStateForNewInput s) \<and> \<not> hasCalculated (resetStateForNewInput s)"
  by (auto simp: resetStateForNewInput_def checkErrorState_def)

lemma inv_appendDigit:
  assumes "stateInv s" "validCommand (Digit d)"
  shows "stateInv (appendDigit d s)"
proof -
  obtain c where d: "d = [c]" "isDigit c" using assms(2) by (rule validDigit_char)
  define r where "r = resetStateForNewInput s"
  have r: "stateInv r" "\<not> isError r" "\<not> hasCalculated r"
    using inv_reset [OF assms(1)] reset_fresh [OF assms(1)] by (simp_all add: r_def)
  then have v: "validPartialNumber (currentInput r)" "set (currentInput r) \<subseteq> numberChars"
    by (simp_all add: stateInv_def)
  have "stateInv (if currentInput r = ''0'' then r\<lparr>currentInput := d\<rparr>
     else if currentInput r = ''-0'' then r\<lparr>currentInput := ''-'' @ d\<rparr>
     else r\<lparr>currentInput := currentInput r @ d\<rparr>)"
    using r v d valid_digit [OF d(2)] valid_append_digit [OF v(1) d(2)]
      valid_minus [of "[c]"] isDigit_numberChars [OF d(2)]
    by (auto simp: stateInv_def numberChars_simps)
  then show ?thesis unfolding appendDigit_def Let_def r_def .
qed

lemma inv_addDecimalPoint:
  assumes "stateInv s"
  shows "stateInv (addDecimalPoint s)"
proof -
  define r where "r = resetStateForNewInput s"
  have r: "stateInv r" "\<not> isError r" "\<not> hasCalculated r"
    using inv_reset [OF assms(1)] reset_fresh [OF assms(1)] by (simp_all add: r_def)
  then have v: "validPartialNumber (currentInput r)" "set (currentInput r) \<subseteq> numberChars"
    by (simp_all add: stateInv_def)
  have "stateInv (if CHR ''.'' \<notin> set (currentInput r)
      then r\<lparr>currentInput := currentInput r @ ''.''\<rparr> else r)"
    using r v valid_append_dot [OF v(1)]
    by (auto simp: stateInv_def numberChars_simps)
  then show ?thesis unfolding addDecimalPoint_def Let_def r_def .
qed

lemma inv_toggleSign:
  assumes "stateInv s"
  shows "stateInv (toggleSign s)"
proof (cases "checkErrorState s \<or> currentInput s = ''0'' \<or> currentInput s = ''0.''")
  case True
  then show ?thesis using assms by (auto simp: toggleSign_def)
next
  case False
  then have ne: "\<not> isError s" by (simp add: checkErrorState_def)
  have c: "set (currentInput s) \<subseteq> numberChars" using assms ne by (simp add: stateInv_def)
  have c': "set (if startsWithMinus (currentInput s) then drop 1 (currentInput s)
      else ''-'' @ currentInput s) \<subseteq> numberChars"
    using c set_drop_subset [of 1 "currentInput s"] by (auto simp: numberChars_simps)
  have v: "\<not> hasCalculated s \<Longrightarrow> validPartialNumber
      (if startsWithMinus (currentInput s) then drop 1 (currentInput s) else ''-'' @ currentInput s)"
    using assms ne by (intro valid_toggle) (simp add: stateInv_def)
  have g: "hasCalculated s \<Longrightarrow> singleSign
      (if startsWithMinus (currentInput s) then drop 1 (currentInput s) else ''-'' @ currentInput s)"
    using assms ne by (intro singleSign_toggle) (simp add: stateInv_def)
  show ?thesis
    using False assms ne c' v g by (simp add: toggleSign_def stateInv_def)
qed

lemma inv_removeLastCharacter:
  assumes "stateInv s"
  shows "stateInv (removeLastCharacter s)"
proof (cases "checkErrorState s \<or> hasCalculated s")
  case True
  then show ?thesis using assms by (auto simp: removeLastCharacter_def)
next
  case False
  then have ne: "\<not> isError s" "\<not> hasCalculated s" by (simp_all add: checkErrorState_def)
  have c: "set (butlast (currentInput s)) \<subseteq> numberChars"
    using assms ne by (auto simp: stateInv_def dest: in_set_butlastD)
  have v: "validPartialNumber (butlast (currentInput s))"
    using assms ne by (intro valid_butlast) (simp add: stateInv_def)
  show ?thesis
    using False assms ne c v
    by (simp add: removeLastCharacter_def stateInv_def valid_zero numberChars_simps)
qed

lemma inv_clearCalculator: "stateInv (clearCalculator s)"
  by (simp add: stateInv_def clearCalculator_def valid_zero numberChars_simps)

lemma inv_enterError: "stateInv (enterError s)"
  by (simp add: stateInv_def enterError_def)

lemma truthy_Some: "truthy (Some t) = (t \<noteq> [])"
  by (simp add: truthy_def)

lemma inv_selectOperator:
  assumes "stateInv s" "validCommand (Operator opr)"
  shows "stateInv (selectOperator opr s)"
proof (cases "checkErrorState s")
  case True
  then show ?thesis using assms by (simp add: selectOperator_def)
next
  case False
  then have ne: "\<not> isError s" by (simp add: checkErrorState_def)
  have o: "opr \<noteq> []" using assms(2) by auto
  define t where "t = (if hasCalculated s then s\<lparr>hasCalculated := False, secondOperand := None\<rparr> else s)"
  have t: "\<not> hasCalculated t" "\<not> isError t" "currentInput t = currentInput s"
    "set (currentInput t) \<subseteq> numberChars"
    using assms(1) ne by (auto simp: t_def stateInv_def)
  have tv: "truthy (operator t) \<and> currentInput t \<noteq> ''0'' \<or> validPartialNumber (currentInput t)"
    using assms(1) ne by (cases "hasCalculated s") (auto simp: t_def stateInv_def valid_zero)
  have A: "stateInv (t\<lparr>firstOperand := Some n, operator := Some opr, currentInput := ''0''\<rparr>)" for n
    using t o by (simp add: stateInv_def valid_zero numberChars_simps)
  have B: "stateInv (t\<lparr>secondOperand := Some n, firstOperand := Some r, secondOperand := None,
      operator := Some opr, currentInput := ''0''\<rparr>)" for n r
    using t o by (simp add: stateInv_def valid_zero numberChars_simps)
  have C: "\<not> (truthy (operator t) \<and> currentInput t \<noteq> ''0'') \<Longrightarrow> stateInv (t\<lparr>operator := Some opr\<rparr>)"
    using t tv o by (auto simp: stateInv_def)
  show ?thesis
    using False A B C inv_enterError
    by (simp add: selectOperator_def Let_def t_def [symmetric] split: option.splits)
qed

lemma inv_calculateResult:
  assumes "stateInv s"
  shows "stateInv (calculateResult s)"
proof (cases "checkErrorState s")
  case True
  then show ?thesis using assms by (simp add: calculateResult_def)
next
  case False
  then have ne: "\<not> isError s" by (simp add: checkErrorState_def)
  have A: "isFinite r \<Longrightarrow> operator s = Some opx \<Longrightarrow> stateInv (s\<lparr>secondOperand := Some b, firstOperand := Some r,
      currentInput := formatDisplayNumber r, hasCalculated := True\<rparr>)" for r b opx
    using ne assms formatDisplayNumber_chars [of r] formatDisplayNumber_singleSign [of r]
    by (auto simp: stateInv_def truthy_Some)
  show ?thesis
    using False assms A inv_enterError
    by (auto simp: calculateResult_def Let_def split: option.splits)
qed

lemma inv_step: "stateInv s \<Longrightarrow> validCommand c \<Longrightarrow> stateInv (step s c)"
  by (cases c)
    (simp_all only: step.simps inv_appendDigit inv_addDecimalPoint inv_toggleSign
      inv_removeLastCharacter inv_clearCalculator inv_selectOperator inv_calculateResult)

lemma reachable_inv: "reachable s \<Longrightarrow> stateInv s"
  by (induction rule: reachable.induct) (simp_all add: inv_initial inv_step)

lemma reachable_foldl:
  "reachable s \<Longrightarrow> list_all validCommand cs \<Longrightarrow> reachable (foldl step s cs)"
  by (induction cs arbitrary: s) (simp_all add: reachable_step)

lemma reachable_run: "list_all validCommand cs \<Longrightarrow> reachable (run cs)"
  unfolding run_def by (rule reachable_foldl [OF reachable_init])

subsection \<open>Editing keeps the shape of the input\<close>

lemma valid_step:
  assumes "validPartialNumber (currentInput s) \<or> currentInput s = ''Error''"
    and "validCommand c" "c \<noteq> Equals"
  shows "validPartialNumber (currentInput (step s c)) \<or> currentInput (step s c) = ''Error''"
proof (cases c)
  case (Digit d)
  then obtain ch where d: "d = [ch]" "isDigit ch" using assms(2) validDigit_char by blast
  show ?thesis
  proof (cases "checkErrorState s \<or> hasCalculated s")
    case True
    then show ?thesis
      using d valid_digit [OF d(2)]
      by (auto simp: Digit appendDigit_def resetStateForNewInput_def)
  next
    case False
    then have v: "validPartialNumber (currentInput s)"
      using assms(1) by (auto simp: checkErrorState_def)
    show ?thesis
      using False d valid_digit [OF d(2)] valid_append_digit [OF v d(2)]
        valid_minus [of "[ch]"]
      by (auto simp: Digit appendDigit_def resetStateForNewInput_def)
  qed
next
  case DecimalPoint
  show ?thesis
  proof (cases "checkErrorState s \<or> hasCalculated s")
    case True
    then show ?thesis
      using valid_append_dot [OF valid_zero]
      by (auto simp: DecimalPoint addDecimalPoint_def resetStateForNewInput_def)
  next
    case False
    then have v: "validPartialNumber (currentInput s)"
      using assms(1) by (auto simp: checkErrorState_def)
    show ?thesis
      using False v valid_append_dot [OF v]
      by (auto simp: DecimalPoint addDecimalPoint_def resetStateForNewInput_def)
  qed
next
  case (Operator opr)
  show ?thesis
    using assms(1) valid_zero
    by (auto simp: Operator selectOperator_def enterError_def Let_def split: option.splits)
next
  case Sign
  show ?thesis
  proof (cases "checkErrorState s")
    case True
    then show ?thesis using assms(1) by (simp add: Sign toggleSign_def)
  next
    case False
    then have v: "validPartialNumber (currentInput s)"
      using assms(1) by (auto simp: checkErrorState_def)
    show ?thesis
      using False v valid_toggle [OF v] by (auto simp: Sign toggleSign_def)
  qed
next
  case Backspace
  show ?thesis
  proof (cases "checkErrorState s")
    case True
    then show ?thesis using assms(1) by (simp add: Backspace removeLastCharacter_def)
  next
    case False
    then have v: "validPartialNumber (currentInput s)"
      using assms(1) by (auto simp: checkErrorState_def)
    show ?thesis
      using False v valid_butlast [OF v] valid_zero
      by (auto simp: Backspace removeLastCharacter_def)
  qed
next
  case Clear
  then show ?thesis using valid_zero by (simp add: clearCalculator_def)
next
  case Equals
  then show ?thesis using assms(3) by simp
qed

subsection \<open>Printing a natural number\<close>

lemma digitChar_zero: "digitChar (m * 10) = CHR ''0''"
  by (simp add: digitChar_def digitChars_def)

lemma digitsOf_times10: "0 < m \<Longrightarrow> digitsOf (m * 10) = digitsOf m @ ''0''"
  by (subst digitsOf.simps) (simp add: digitChar_zero)

lemma digitsOf_shift: "0 < m \<Longrightarrow> digitsOf (m * 10 ^ j) = digitsOf m @ replicate j CHR ''0''"
proof (induction j)
  case 0
  then show ?case by simp
next
  case (Suc j)
  have e: "m * 10 ^ Suc j = (m * 10 ^ j) * 10" by simp
  have "digitsOf ((m * 10 ^ j) * 10) = digitsOf (m * 10 ^ j) @ ''0''"
    using Suc.prems by (intro digitsOf_times10) simp
  then show ?case
    unfolding e using Suc by (simp add: replicate_append_same)
qed

lemma length_digitsOf: "0 < m \<Longrightarrow> length (digitsOf m) = floorlog 10 m"
proof (induction m rule: digitsOf.induct)
  case (1 n)
  show ?case
  proof (cases "n < 10")
    case True
    then have "n div 10 = 0" by simp
    then have "floorlog 10 n = 1"
      using "1.prems" by (subst compute_floorlog) (simp add: floorlog_eq_zero_iff)
    then show ?thesis using True by (subst digitsOf.simps) simp
  next
    case False
    then have "0 < n div 10" by (simp add: div_greater_zero_iff)
    then have "length (digitsOf (n div 10)) = floorlog 10 (n div 10)"
      using "1.IH" False by simp
    moreover have "floorlog 10 n = floorlog 10 (n div 10) + 1"
      using "1.prems" by (subst compute_floorlog) simp
    ultimately show ?thesis using False by (subst digitsOf.simps) simp
  qed
qed

lemma floorlog10_facts:
  assumes "0 < n" "n < 10 ^ 15"
  shows "1 \<le> floorlog 10 n" "floorlog 10 n \<le> 15"
    "10 ^ (floorlog 10 n - 1) \<le> n" "n < 10 ^ floorlog 10 n"
proof -
  show "1 \<le> floorlog 10 n"
    using assms(1) floorlog_eq_zero_iff [of 10 n] by (cases "floorlog 10 n") auto
  show "floorlog 10 n \<le> 15"
    using assms(2) by (simp add: floorlog_le_iff)
  show "10 ^ (floorlog 10 n - 1) \<le> n" "n < 10 ^ floorlog 10 n"
    using floorlog_bounds [of n 10] assms(1) by simp_all
qed

lemma dexp_nat:
  assumes "0 < n"
  shows "dexp (of_nat n) = int (floorlog 10 n)"
proof -
  have "(1::rat) \<le> of_nat n" using assms by simp
  moreover have "nat \<lfloor>(of_nat n :: rat)\<rfloor> = n" by simp
  ultimately show ?thesis by (simp add: dexp_def)
qed

lemma round64_nat:
  assumes "0 < m" "m < 2 ^ 53"
  shows "round64 (of_nat m) = Fin (of_nat m)"
proof -
  have "int m < int (2 ^ 53)" using assms(2) by (simp only: of_nat_less_iff)
  then have "int m < 2 ^ 53" by simp
  moreover have "0 < int m" using assms(1) by simp
  ultimately show ?thesis using round64_int [of "int m"] by simp
qed

lemma round64_nat_le:
  assumes "0 < m" "m \<le> 2 ^ 53"
  shows "round64 (of_nat m) = Fin (of_nat m)"
proof (cases "m < 2 ^ 53")
  case True
  then show ?thesis using assms(1) by (intro round64_nat)
next
  case False
  then have m: "m = 2 ^ 53" using assms(2) by simp
  have "round64 (of_int (2 ^ 52) * pow2 1) = Fin (of_int (2 ^ 52) * pow2 1)"
    by (rule round64_int_shift) simp_all
  then show ?thesis by (simp add: m pow2_def)
qed

lemma candidate_nat:
  assumes "0 < n" "n < 10 ^ 15" "1 \<le> k" "k \<le> floorlog 10 n"
  shows "candidate (of_nat n) (int (floorlog 10 n)) k =
    (if 10 ^ (floorlog 10 n - k) dvd n then Some (int (n div 10 ^ (floorlog 10 n - k))) else None)"
proof -
  define L where "L = floorlog 10 n"
  define j where "j = L - k"
  define lo where "lo = n div 10 ^ j"
  note F = floorlog10_facts [OF assms(1,2), folded L_def]
  have kL: "k \<le> L" using assms(4) by (simp add: L_def)
  have q: "pow10 (int L - int k) = 10 ^ j"
    using kL by (simp add: pow10_def j_def nat_diff_distrib)
  have fl: "\<lfloor>(of_nat n :: rat) / 10 ^ j\<rfloor> = int lo"
    using floor_divide_of_nat_eq [of n "10 ^ j", where 'a = rat] by (simp add: lo_def)
  have "j \<le> L - 1" using assms(3) by (simp add: j_def)
  then have "(10::nat) ^ j \<le> 10 ^ (L - 1)" by (intro power_increasing) auto
  then have jn: "10 ^ j \<le> n" using F(3) by linarith
  then have lo_pos: "0 < lo" by (simp add: lo_def div_greater_zero_iff)
  have lo1: "lo * 10 ^ j \<le> n" by (simp add: lo_def)
  have lo2: "n < (lo + 1) * 10 ^ j"
    using dividend_less_div_times [of "10 ^ j" n] by (simp add: lo_def)
  have hi: "(lo + 1) * 10 ^ j \<le> 2 * n"
    using lo1 jn by (simp add: algebra_simps)
  have b1: "lo * 10 ^ j < 2 ^ 53" "(lo + 1) * 10 ^ j < 2 ^ 53"
    using lo1 hi assms(2) by simp_all
  have p1: "0 < lo * 10 ^ j" "0 < (lo + 1) * 10 ^ j" using lo_pos by simp_all
  have c1: "(of_int (int lo) :: rat) * 10 ^ j = of_nat (lo * 10 ^ j)" by simp
  have c2: "(of_int (int lo + 1) :: rat) * 10 ^ j = of_nat ((lo + 1) * 10 ^ j)"
    by (simp add: algebra_simps)
  have r1: "round64 (of_int (int lo) * 10 ^ j) = Fin (of_nat (lo * 10 ^ j))"
    by (simp only: c1 round64_nat [OF p1(1) b1(1)])
  have r2: "round64 (of_int (int lo + 1) * 10 ^ j) = Fin (of_nat ((lo + 1) * 10 ^ j))"
    by (simp only: c2 round64_nat [OF p1(2) b1(2)])
  have okl: "((of_nat (lo * 10 ^ j) :: rat) = of_nat n) = (10 ^ j dvd n)"
    unfolding of_nat_eq_iff by (auto simp: lo_def mult.commute intro: dvdI [of n "10 ^ j" "n div 10 ^ j"])
  have okh: "(of_nat ((lo + 1) * 10 ^ j) :: rat) \<noteq> of_nat n"
    unfolding of_nat_eq_iff using lo2 by simp
  show ?thesis
    unfolding candidate_def Let_def L_def [symmetric] q fl r1 r2 jsnum.inject okl
    using okh by (simp add: j_def lo_def)
qed

lemma shortest_nat:
  assumes "0 < n" "n < 10 ^ 15" "1 \<le> k" "k \<le> floorlog 10 n" "floorlog 10 n - k < fuel"
  shows "\<exists>k'. k \<le> k' \<and> k' \<le> floorlog 10 n \<and> 10 ^ (floorlog 10 n - k') dvd n \<and>
    shortest (of_nat n) (int (floorlog 10 n)) k fuel = (k', int (n div 10 ^ (floorlog 10 n - k')))"
  using assms(3-5)
proof (induction fuel arbitrary: k)
  case 0
  then show ?case by simp
next
  case (Suc fuel)
  show ?case
  proof (cases "10 ^ (floorlog 10 n - k) dvd n")
    case True
    then show ?thesis
      using Suc.prems candidate_nat [OF assms(1,2) Suc.prems(1,2)] by auto
  next
    case False
    then have "k \<noteq> floorlog 10 n" by auto
    then have k: "1 \<le> Suc k" "Suc k \<le> floorlog 10 n" "floorlog 10 n - Suc k < fuel"
      using Suc.prems by simp_all
    obtain k' where "Suc k \<le> k'" "k' \<le> floorlog 10 n" "10 ^ (floorlog 10 n - k') dvd n"
      "shortest (of_nat n) (int (floorlog 10 n)) (Suc k) fuel =
        (k', int (n div 10 ^ (floorlog 10 n - k')))"
      using Suc.IH [OF k] by blast
    then show ?thesis
      using False candidate_nat [OF assms(1,2) Suc.prems(1,2)] by auto
  qed
qed

lemma layout_integer:
  assumes "int (length ds) \<le> n" "n \<le> 21" "ds \<noteq> []"
  shows "layout ds n = ds @ replicate (nat n - length ds) CHR ''0''"
  using assms by (simp add: layout_def Let_def nat_diff_distrib)

lemma String_nat:
  assumes "0 < n" "n < 10 ^ 15"
  shows "String (Fin (of_nat n)) = digitsOf n"
proof -
  define L where "L = floorlog 10 n"
  note F = floorlog10_facts [OF assms, folded L_def]
  have "\<exists>k'. 1 \<le> k' \<and> k' \<le> floorlog 10 n \<and> 10 ^ (floorlog 10 n - k') dvd n \<and>
    shortest (of_nat n) (int (floorlog 10 n)) 1 16 = (k', int (n div 10 ^ (floorlog 10 n - k')))"
    by (rule shortest_nat [OF assms]) (use F(1,2) in \<open>simp_all add: L_def\<close>)
  then obtain k where k: "1 \<le> k" "k \<le> L" "10 ^ (L - k) dvd n"
    "shortest (of_nat n) (int L) 1 16 = (k, int (n div 10 ^ (L - k)))"
    unfolding L_def by blast
  define s where "s = n div 10 ^ (L - k)"
  have n: "n = s * 10 ^ (L - k)" using k(3) by (simp add: s_def)
  have s0: "0 < s" using assms(1) n by (cases "s = 0") auto
  have "s * 10 ^ (L - k) < 10 ^ k * 10 ^ (L - k)"
    using F(4) k(2) n by (simp flip: power_add)
  then have sk: "s < 10 ^ k" by simp
  have "10 ^ (k - 1) * 10 ^ (L - k) \<le> s * 10 ^ (L - k)"
    using F(3) k(1,2) n by (simp flip: power_add)
  then have sk': "10 ^ (k - 1) \<le> s" by simp
  have "floorlog 10 s = k"
  proof (rule antisym)
    show "floorlog 10 s \<le> k" using sk by (simp add: floorlog_le_iff)
    show "k \<le> floorlog 10 s" using sk' by (intro floorlog_geI) auto
  qed
  then have len: "length (digitsOf s) = k" using length_digitsOf [OF s0] by simp
  have "int s < int (10 ^ k)" using sk by (simp only: of_nat_less_iff)
  then have ne: "int s \<noteq> 10 ^ k" by simp
  have "positiveToString (of_nat n) = layout (digitsOf s) (int L)"
    unfolding positiveToString_def dexp_nat [OF assms(1)] L_def [symmetric] Let_def k(4)
      s_def [symmetric]
    using ne by simp
  also have "\<dots> = digitsOf s @ replicate (L - k) CHR ''0''"
  proof -
    have "digitsOf s \<noteq> []" using len k(1) by auto
    then show ?thesis
      using layout_integer [of "digitsOf s" "int L"] len k(2) F(2) by simp
  qed
  also have "\<dots> = digitsOf n"
    using digitsOf_shift [OF s0, of "L - k"] n by simp
  finally show ?thesis using assms(1) by simp
qed

subsection \<open>The rounding error\<close>







subsection \<open>Evaluation\<close>

lemma round64_zero: "round64 0 = Fin 0"
  by (simp add: round64_def)

lemma round64_one: "round64 1 = Fin 1"
  using round64_int [of 1] by simp

lemma round64_numeral:
  "numeral k < (2::int) ^ 53 \<Longrightarrow> round64 (numeral k) = Fin (numeral k)"
  using round64_int [of "numeral k"] by simp

lemma shortest_numeral:
  "shortest x n k (numeral v) =
    (case candidate x n k of Some s \<Rightarrow> (k, s) | None \<Rightarrow> shortest x n (Suc k) (pred_numeral v))"
  by (simp add: numeral_eq_Suc)

lemma floor_rat_numeral_div:
  "\<lfloor>numeral a / numeral b :: rat\<rfloor> = numeral a div numeral b"
  by (metis floor_divide_of_int_eq of_int_numeral)

lemma floor_rat_one_div:
  "\<lfloor>1 / numeral b :: rat\<rfloor> = 1 div numeral b"
  by (metis floor_divide_of_int_eq of_int_numeral of_int_1)

lemma ceiling_rat_numeral_div:
  "\<lceil>numeral a / numeral b :: rat\<rceil> = - ((- numeral a) div numeral b)"
  unfolding ceiling_def by (metis floor_divide_of_int_eq of_int_numeral of_int_minus minus_divide_left)

lemmas number_eval =
  round64_zero round64_one round64_numeral round64_def ilog2_def rne_def pow2_def pow10_def
  dexp_def compute_bitlen compute_floorlog floor_rat_numeral_div floor_rat_one_div
  ceiling_rat_numeral_div Let_def
  Number_def parseUnsigned_def parseExponent_def isDigit_def digitChars_def digitsVal_def
  digitVal_def digitChar_def digitsOf.simps
  positiveToString_def shortest_numeral candidate_def nearest_def layout_def
  EPSILON_def isFinite_def infOfSign_def fsub_def

lemmas state_eval0 =
  run_def initialState_def checkErrorState_def
  getCurrentInputAsNumber_def performCalculation_def truthy_def resetStateForNewInput_def
  appendDigit_def addDecimalPoint_def startsWithMinus_def toggleSign_def
  removeLastCharacter_def clearCalculator_def enterError_def selectOperator_def
  equalsOperand_def calculateResult_def

lemmas state_eval = state_eval0 formatDisplayNumber_def


subsection \<open>Repeated Equals\<close>

lemma run_snoc: "run (cs @ [c]) = step (run cs) c"
  by (simp add: run_def)

lemma formatDisplayNumber_not_Error: "formatDisplayNumber (Fin x) \<noteq> ''Error''"
  using formatDisplayNumber_chars [of "Fin x"] Error_not_number
  by (simp add: isFinite_def)

lemma run_replicate_Suc:
  "run (cs @ replicate (Suc n) c) = step (run (cs @ replicate n c)) c"
  using run_snoc [of "cs @ replicate n c" c] by (simp add: replicate_append_same)

lemma calculateResult_repeat:
  "calculateResult
    \<lparr>firstOperand = Some (Fin x), secondOperand = Some (Fin 3),
     operator = Some ''+'', currentInput = formatDisplayNumber (Fin x),
     hasCalculated = True, isError = False\<rparr> =
    (if \<not> isFinite (fadd (Fin x) (Fin 3))
     then enterError
       \<lparr>firstOperand = Some (Fin x), secondOperand = Some (Fin 3),
        operator = Some ''+'', currentInput = formatDisplayNumber (Fin x),
        hasCalculated = True, isError = False\<rparr>
     else \<lparr>firstOperand = Some (fadd (Fin x) (Fin 3)), secondOperand = Some (Fin 3),
       operator = Some ''+'', currentInput = formatDisplayNumber (fadd (Fin x) (Fin 3)),
       hasCalculated = True, isError = False\<rparr>)"
  by (simp add: calculateResult_def checkErrorState_def formatDisplayNumber_not_Error
      equalsOperand_def performCalculation_def Let_def del: fadd.simps)

lemma repeated_equals_state:
  assumes "1 \<le> N" "5 + 3 * N \<le> 2 ^ 53"
  shows "run ([Digit ''5'', Operator ''+'', Digit ''3''] @ replicate N Equals) =
    \<lparr>firstOperand = Some (Fin (of_nat (5 + 3 * N))), secondOperand = Some (Fin 3),
     operator = Some ''+'', currentInput = formatDisplayNumber (Fin (of_nat (5 + 3 * N))),
     hasCalculated = True, isError = False\<rparr>"
  using assms
proof (induction N rule: dec_induct)
  case base
  show ?case by (simp add: state_eval0 number_eval)
next
  case (step n)
  have b: "0 < 5 + 3 * Suc n" by simp
  have a: "fadd (Fin (of_nat (5 + 3 * n))) (Fin 3) = Fin (of_nat (5 + 3 * Suc n))"
    using round64_nat_le [OF b step.prems] by (simp add: algebra_simps)
  have ih: "run ([Digit ''5'', Operator ''+'', Digit ''3''] @ replicate n Equals) =
    \<lparr>firstOperand = Some (Fin (of_nat (5 + 3 * n))), secondOperand = Some (Fin 3),
     operator = Some ''+'', currentInput = formatDisplayNumber (Fin (of_nat (5 + 3 * n))),
     hasCalculated = True, isError = False\<rparr>"
    by (rule step.IH) (use step.prems in simp)
  show ?case
    unfolding run_replicate_Suc step.simps ih calculateResult_repeat
    by (simp only: a isFinite_def jsnum.case, simp)
qed

lemma formatDisplayNumber_nat:
  assumes "4 \<le> n" "n < 36893489"
  shows "formatDisplayNumber (Fin (of_nat n)) = digitsOf n"
proof -
  have "n \<le> 36893488" using assms(2) by simp
  then have "n * 5 ^ 12 \<le> 36893488 * 5 ^ 12" by (intro mult_right_mono) simp_all
  then have "n * 5 ^ 12 < 2 ^ 53" by simp
  then have "int (n * 5 ^ 12) < int (2 ^ 53)" by (simp only: of_nat_less_iff)
  then have "int n * 5 ^ 12 < 2 ^ 53" by simp
  moreover have "4 \<le> int n" using assms(1) by simp
  ultimately have "formatDisplayNumber (Fin (of_int (int n))) = String (Fin (of_int (int n)))"
    by (rule formatDisplayNumber_int [rotated])
  moreover have "String (Fin (of_nat n)) = digitsOf n"
    using assms by (intro String_nat) simp_all
  ultimately show ?thesis by simp
qed

subsection \<open>The display after Equals\<close>

lemma signToggled_twice: "singleSign t \<Longrightarrow> signToggled (signToggled t) = t"
  by (cases t) (auto simp: signToggled_def singleSign_def startsWithMinus_def split: list.splits)

lemma hasCalculated_appendDigit: "\<not> hasCalculated (appendDigit d s)"
  by (simp add: appendDigit_def resetStateForNewInput_def Let_def)

lemma hasCalculated_addDecimalPoint: "\<not> hasCalculated (addDecimalPoint s)"
  by (simp add: addDecimalPoint_def resetStateForNewInput_def Let_def)

lemma hasCalculated_selectOperator:
  "\<not> checkErrorState s \<Longrightarrow> \<not> hasCalculated (selectOperator opr s)"
  by (simp add: selectOperator_def enterError_def Let_def split: option.splits)

lemma display_toggleSign:
  assumes "postEqualsDisplay s"
  shows "postEqualsDisplay (toggleSign s)"
proof -
  obtain a where a: "firstOperand s = Some a" "isFinite a"
    and c: "currentInput s = formatDisplayNumber a \<or>
      currentInput s = signToggled (formatDisplayNumber a)"
    using assms by (auto simp: postEqualsDisplay_def split: option.splits)
  have t: "signToggled (signToggled (formatDisplayNumber a)) = formatDisplayNumber a"
    by (rule signToggled_twice) (rule formatDisplayNumber_singleSign)
  have "currentInput (toggleSign s) = currentInput s \<or>
      currentInput (toggleSign s) = signToggled (currentInput s)"
    by (simp add: toggleSign_def signToggled_def)
  then have "currentInput (toggleSign s) = formatDisplayNumber a \<or>
      currentInput (toggleSign s) = signToggled (formatDisplayNumber a)"
    using c t by auto
  moreover have "firstOperand (toggleSign s) = Some a"
    using a(1) by (simp add: toggleSign_def)
  ultimately show ?thesis using a(2) by (simp add: postEqualsDisplay_def)
qed

lemma display_calculateResult:
  assumes "hasCalculated s \<longrightarrow> currentInput s = ''Error'' \<or> postEqualsDisplay s"
    and "hasCalculated (calculateResult s)"
  shows "currentInput (calculateResult s) = ''Error'' \<or> postEqualsDisplay (calculateResult s)"
proof (cases "checkErrorState s")
  case True
  then show ?thesis using assms by (simp add: calculateResult_def)
next
  case False
  show ?thesis
  proof (cases "operator s")
    case None
    then show ?thesis using False assms by (simp add: calculateResult_def)
  next
    case (Some opx)
    show ?thesis
    proof (cases "firstOperand s")
      case None
      then show ?thesis using False Some assms by (simp add: calculateResult_def)
    next
      case (Some a)
      show ?thesis
        using False Some \<open>operator s = Some opx\<close>
        by (simp add: calculateResult_def Let_def enterError_def postEqualsDisplay_def)
    qed
  qed
qed

lemma display_step:
  assumes "stateInv s" "validCommand c"
    and "hasCalculated s \<longrightarrow> currentInput s = ''Error'' \<or> postEqualsDisplay s"
    and "hasCalculated (step s c)"
  shows "currentInput (step s c) = ''Error'' \<or> postEqualsDisplay (step s c)"
proof (cases c)
  case (Digit d)
  then show ?thesis using assms(4) hasCalculated_appendDigit by simp
next
  case DecimalPoint
  then show ?thesis using assms(4) hasCalculated_addDecimalPoint by simp
next
  case (Operator opr)
  show ?thesis
  proof (cases "checkErrorState s")
    case True
    then show ?thesis using assms(3,4) by (simp add: Operator selectOperator_def)
  next
    case False
    then show ?thesis using assms(4) hasCalculated_selectOperator by (simp add: Operator)
  qed
next
  case Sign
  have h: "hasCalculated s" using assms(4) by (simp add: Sign toggleSign_def split: if_splits)
  show ?thesis
  proof (cases "currentInput s = ''Error''")
    case True
    then show ?thesis by (simp add: Sign toggleSign_def checkErrorState_def)
  next
    case False
    then have "postEqualsDisplay s" using assms(3) h by simp
    then show ?thesis using display_toggleSign by (simp add: Sign)
  qed
next
  case Backspace
  have "removeLastCharacter s = s"
    using assms(4) by (simp add: Backspace removeLastCharacter_def split: if_splits)
  then show ?thesis using assms(3,4) by (simp add: Backspace)
next
  case Clear
  then show ?thesis using assms(4) by (simp add: clearCalculator_def)
next
  case Equals
  then show ?thesis using display_calculateResult [OF assms(3)] assms(4) by simp
qed

lemma reachable_display:
  "reachable s \<Longrightarrow> hasCalculated s \<longrightarrow> currentInput s = ''Error'' \<or> postEqualsDisplay s"
proof (induction rule: reachable.induct)
  case reachable_init
  show ?case by (simp add: initialState_def)
next
  case (reachable_step s c)
  show ?case
    using display_step [OF reachable_inv [OF reachable_step.hyps(1)] reachable_step.hyps(2)
      reachable_step.IH]
    by blast
qed

subsection \<open>Division by zero\<close>

lemma run_nine_div_zero:
  "run [Digit ''9'', Operator ''/'', Digit ''0''] =
    \<lparr>firstOperand = Some (Fin 9), secondOperand = None, operator = Some ''/'',
     currentInput = ''0'', hasCalculated = False, isError = False\<rparr>"
  by (simp add: state_eval number_eval)

lemma calculateResult_division_by_zero:
  assumes "\<not> checkErrorState s" "firstOperand s = Some a" "operator s = Some ''/''"
    "\<not> hasCalculated s" "getCurrentInputAsNumber s = Fin 0"
  shows "errorEntered (calculateResult s)"
  using assms
  by (simp add: calculateResult_def equalsOperand_def errorEntered_def enterError_def
      performCalculation_def isFinite_def Let_def)

lemma selectOperator_division_by_zero:
  assumes "\<not> checkErrorState s" "firstOperand s = Some a" "operator s = Some ''/''"
    "\<not> hasCalculated s" "getCurrentInputAsNumber s = Fin 0" "currentInput s \<noteq> ''0''"
  shows "errorEntered (selectOperator opr s)"
  using assms
  by (simp add: selectOperator_def errorEntered_def enterError_def performCalculation_def
      isFinite_def truthy_def Let_def)

lemma selectOperator_typed_zero:
  assumes "\<not> checkErrorState s" "firstOperand s = Some a" "\<not> hasCalculated s"
    "currentInput s = ''0''"
  shows "selectOperator opr s = s\<lparr>operator := Some opr\<rparr>"
  using assms
  by (simp add: selectOperator_def Let_def)

lemma run_nine_div_zero_point:
  "run [Digit ''9'', Operator ''/'', Digit ''0'', DecimalPoint] =
    \<lparr>firstOperand = Some (Fin 9), secondOperand = None, operator = Some ''/'',
     currentInput = ''0.'', hasCalculated = False, isError = False\<rparr>"
  by (simp add: state_eval number_eval)

section \<open>The claims\<close>

text \<open>
  C1.  From a state that is not in error, whenever \<open>selectOperator\<close> or
  \<open>calculateResult\<close> computes a non-finite result (a division by zero included), the
  resulting state has \<open>currentInput = "Error"\<close>, \<open>isError = true\<close>, and \<open>firstOperand\<close>,
  \<open>secondOperand\<close> and \<open>operator\<close> all null.
\<close>

theorem C1_non_finite_result_enters_error:
  assumes "\<not> checkErrorState s"
  shows "(firstOperand s = Some a \<and> truthy (operator s) \<and> currentInput s \<noteq> ''0'' \<and>
          \<not> isFinite (performCalculation a (the (operator s)) (getCurrentInputAsNumber s))
          \<longrightarrow> errorEntered (selectOperator opr s)) \<and>
         (firstOperand s = Some a \<and> operator s = Some opx \<and>
          \<not> isFinite (performCalculation a opx (equalsOperand s))
          \<longrightarrow> errorEntered (calculateResult s)) \<and>
         (firstOperand s = Some a \<and> operator s = Some ''/'' \<and> equalsOperand s = Fin 0
          \<longrightarrow> errorEntered (calculateResult s))"
  using assms
  by (auto simp: selectOperator_def calculateResult_def enterError_def errorEntered_def
      performCalculation_def isFinite_def Let_def)

theorem C1_witness:
  "\<not> checkErrorState
      \<lparr>firstOperand = Some (Fin 9), secondOperand = None, operator = Some ''/'',
       currentInput = ''0.0'', hasCalculated = False, isError = False\<rparr> \<and>
   errorEntered (selectOperator ''+''
      \<lparr>firstOperand = Some (Fin 9), secondOperand = None, operator = Some ''/'',
       currentInput = ''0.0'', hasCalculated = False, isError = False\<rparr>) \<and>
   errorEntered (calculateResult
      \<lparr>firstOperand = Some (Fin 9), secondOperand = None, operator = Some ''/'',
       currentInput = ''0.0'', hasCalculated = False, isError = False\<rparr>)"
proof -
  let ?s = "\<lparr>firstOperand = Some (Fin 9), secondOperand = None, operator = Some ''/'',
       currentInput = ''0.0'', hasCalculated = False, isError = False\<rparr>"
  have h: "\<not> checkErrorState ?s" by (simp add: checkErrorState_def)
  have n: "getCurrentInputAsNumber ?s = Fin 0"
    by (simp add: getCurrentInputAsNumber_def number_eval)
  have e: "equalsOperand ?s = Fin 0" by (simp add: equalsOperand_def n)
  show ?thesis
    using h C1_non_finite_result_enters_error [OF h, of "Fin 9" "''+''" "''/''"] n e
    by (simp add: truthy_def performCalculation_def isFinite_def)
qed

text \<open>
  C2 (as amended).  In an error state \<open>toggleSign\<close>, \<open>removeLastCharacter\<close>,
  \<open>selectOperator\<close> and \<open>calculateResult\<close> leave the state unchanged;
  \<open>appendDigit\<close> and also \<open>addDecimalPoint\<close> first reset the state and then append, and
  \<open>clearCalculator\<close> resets to the initial state.
\<close>

theorem C2_error_state_operations:
  assumes "checkErrorState s"
  shows "toggleSign s = s \<and> removeLastCharacter s = s \<and> selectOperator opr s = s \<and>
         calculateResult s = s \<and>
         appendDigit d s = initialState\<lparr>currentInput := d\<rparr> \<and>
         addDecimalPoint s = initialState\<lparr>currentInput := ''0.''\<rparr> \<and>
         clearCalculator s = initialState"
  using assms
  by (simp add: toggleSign_def removeLastCharacter_def selectOperator_def calculateResult_def
      appendDigit_def addDecimalPoint_def clearCalculator_def resetStateForNewInput_def
      initialState_def Let_def)

lemma run_nine_by_zero:
  "run [Digit ''9'', Operator ''/'', Digit ''0'', Equals] =
    \<lparr>firstOperand = None, secondOperand = None, operator = None,
     currentInput = ''Error'', hasCalculated = False, isError = True\<rparr>"
  by (simp add: state_eval number_eval)

theorem C2_witness:
  "checkErrorState (run [Digit ''9'', Operator ''/'', Digit ''0'', Equals]) \<and>
   toggleSign (run [Digit ''9'', Operator ''/'', Digit ''0'', Equals]) =
     run [Digit ''9'', Operator ''/'', Digit ''0'', Equals] \<and>
   currentInput (appendDigit ''2'' (run [Digit ''9'', Operator ''/'', Digit ''0'', Equals])) = ''2'' \<and>
   currentInput (addDecimalPoint (run [Digit ''9'', Operator ''/'', Digit ''0'', Equals])) = ''0.''"
proof -
  have h: "checkErrorState (run [Digit ''9'', Operator ''/'', Digit ''0'', Equals])"
    by (simp add: run_nine_by_zero checkErrorState_def)
  show ?thesis
    using h C2_error_state_operations [OF h, of "''+''" "''2''"] by simp
qed

theorem C2_counterexample:
  "checkErrorState (run [Digit ''9'', Operator ''/'', Digit ''0'', Equals]) \<and>
   addDecimalPoint (run [Digit ''9'', Operator ''/'', Digit ''0'', Equals]) \<noteq>
     run [Digit ''9'', Operator ''/'', Digit ''0'', Equals]"
  by (simp add: run_nine_by_zero checkErrorState_def addDecimalPoint_def
      resetStateForNewInput_def)

text \<open>
  C3 (as amended).  After the input sequence Digit 5, Operator +, Digit 3, every press
  of Equals reuses the stored \<open>secondOperand\<close> 3 and adds it to \<open>firstOperand\<close>: after
  the \<open>N\<close>-th Equals \<open>firstOperand\<close> is exactly \<open>5 + 3 * N\<close> as long as that is at
  most \<open>2^53\<close>, and as long as \<open>5 + 3 * N\<close> is below 36893489 the displayed
  \<open>currentInput\<close> is the decimal numeral of \<open>5 + 3 * N\<close>: successively \<open>"8"\<close>,
  \<open>"11"\<close>, \<open>"14"\<close>.
\<close>

theorem C3_repeated_equals:
  assumes "1 \<le> N" "5 + 3 * N \<le> 2 ^ 53"
  shows "firstOperand (run ([Digit ''5'', Operator ''+'', Digit ''3''] @ replicate N Equals)) =
           Some (Fin (of_nat (5 + 3 * N))) \<and>
         secondOperand (run ([Digit ''5'', Operator ''+'', Digit ''3''] @ replicate N Equals)) =
           Some (Fin 3) \<and>
         (5 + 3 * N < 36893489 \<longrightarrow>
          currentInput (run ([Digit ''5'', Operator ''+'', Digit ''3''] @ replicate N Equals)) =
            digitsOf (5 + 3 * N))"
proof -
  note s = repeated_equals_state [OF assms]
  have "formatDisplayNumber (Fin (of_nat (5 + 3 * N))) = digitsOf (5 + 3 * N)"
    if "5 + 3 * N < 36893489"
    using assms(1) that by (intro formatDisplayNumber_nat) simp_all
  then show ?thesis unfolding s by simp
qed

theorem C3_witness:
  "currentInput (run [Digit ''5'', Operator ''+'', Digit ''3'', Equals]) = ''8'' \<and>
   currentInput (run [Digit ''5'', Operator ''+'', Digit ''3'', Equals, Equals]) = ''11'' \<and>
   currentInput (run [Digit ''5'', Operator ''+'', Digit ''3'', Equals, Equals, Equals]) = ''14'' \<and>
   firstOperand (run [Digit ''5'', Operator ''+'', Digit ''3'', Equals, Equals, Equals]) =
     Some (Fin 14)"
proof -
  have d: "digitsOf 8 = ''8''" "digitsOf 11 = ''11''" "digitsOf 14 = ''14''"
    by (simp_all add: digitsOf.simps digitChar_def digitChars_def)
  have r: "replicate 1 Equals = [Equals]" "replicate 2 Equals = [Equals, Equals]"
    "replicate 3 Equals = [Equals, Equals, Equals]"
    by (simp_all add: numeral_2_eq_2 numeral_3_eq_3)
  show ?thesis
    using C3_repeated_equals [of 1] C3_repeated_equals [of 2] C3_repeated_equals [of 3]
    by (simp add: d r)
qed

lemma formatDisplayNumber_36893489:
  "formatDisplayNumber (Fin 36893489) = ''36893488.99999999''"
  by (simp add: formatDisplayNumber_def number_eval)

lemma formatDisplayNumber_9007199254740996:
  "formatDisplayNumber (Fin 9007199254740996) = ''9007199254740996''"
  by (simp add: formatDisplayNumber_def number_eval)

lemma display_at_12297828:
  "currentInput (run ([Digit ''5'', Operator ''+'', Digit ''3''] @ replicate 12297828 Equals)) =
     ''36893488.99999999''"
proof -
  define N :: nat where "N = 12297828"
  have n: "1 \<le> N" "5 + 3 * N \<le> 2 ^ 53" "of_nat (5 + 3 * N) = (36893489 :: rat)"
    by (simp_all add: N_def)
  have "currentInput (run ([Digit ''5'', Operator ''+'', Digit ''3''] @ replicate N Equals)) =
      ''36893488.99999999''"
    unfolding repeated_equals_state [OF n(1,2)] n(3)
    by (simp only: formatDisplayNumber_36893489 calculatorState.simps)
  then show ?thesis unfolding N_def .
qed

lemma state_at_3002399751580330:
  "run ([Digit ''5'', Operator ''+'', Digit ''3''] @ replicate 3002399751580330 Equals) =
    \<lparr>firstOperand = Some (Fin 9007199254740996), secondOperand = Some (Fin 3),
     operator = Some ''+'', currentInput = ''9007199254740996'',
     hasCalculated = True, isError = False\<rparr>"
proof -
  define N :: nat where "N = 3002399751580329"
  have n: "1 \<le> N" "5 + 3 * N \<le> 2 ^ 53" "of_nat (5 + 3 * N) = (9007199254740992 :: rat)"
    by (simp_all add: N_def)
  have a: "fadd (Fin 9007199254740992) (Fin 3) = Fin 9007199254740996"
    by (simp add: number_eval)
  have "run ([Digit ''5'', Operator ''+'', Digit ''3''] @ replicate (Suc N) Equals) =
    \<lparr>firstOperand = Some (Fin 9007199254740996), secondOperand = Some (Fin 3),
     operator = Some ''+'', currentInput = ''9007199254740996'',
     hasCalculated = True, isError = False\<rparr>"
    unfolding run_replicate_Suc step.simps repeated_equals_state [OF n(1,2)] n(3)
      calculateResult_repeat a
    by (simp only: isFinite_def jsnum.case formatDisplayNumber_9007199254740996, simp)
  moreover have "Suc N = 3002399751580330" by (simp add: N_def)
  ultimately show ?thesis by (simp only:)
qed

theorem C3_counterexample:
  "currentInput (run ([Digit ''5'', Operator ''+'', Digit ''3''] @ replicate 12297828 Equals)) =
     ''36893488.99999999'' \<and>
   digitsOf (5 + 3 * 12297828) = ''36893489'' \<and>
   firstOperand (run ([Digit ''5'', Operator ''+'', Digit ''3''] @
     replicate 3002399751580330 Equals)) = Some (Fin 9007199254740996) \<and>
   currentInput (run ([Digit ''5'', Operator ''+'', Digit ''3''] @
     replicate 3002399751580330 Equals)) = ''9007199254740996'' \<and>
   5 + 3 * 3002399751580330 = (9007199254740995 :: nat)"
proof -
  have "digitsOf (5 + 3 * 12297828) = ''36893489''"
    by (simp add: digitsOf.simps digitChar_def digitChars_def)
  moreover have "5 + 3 * 3002399751580330 = (9007199254740995 :: nat)" by simp
  ultimately show ?thesis
    unfolding state_at_3002399751580330 by (simp only: display_at_12297828 calculatorState.simps simp_thms)
qed

text \<open>
  C4 (as amended).  With an operator and a first operand pending and the state not in
  error: if \<open>currentInput\<close> is not \<open>"0"\<close>, pressing an operator \<open>op\<close> computes
  \<open>apply(firstOperand, operator, readNumber)\<close> and, the result being finite, stores it as
  \<open>firstOperand\<close>, sets \<open>operator = op\<close> and resets \<open>currentInput\<close> to \<open>"0"\<close>; if
  \<open>currentInput\<close> is \<open>"0"\<close>, pressing \<open>op\<close> replaces the pending operator and, coming from
  the post-equals state, also clears \<open>hasCalculated\<close> and \<open>secondOperand\<close>; outside the
  post-equals state nothing else changes.  The sequence 1, +, 2, +, 3, = ends with
  \<open>currentInput\<close> \<open>"6"\<close>.
\<close>

theorem C4_operator_chaining:
  assumes "\<not> checkErrorState s" "firstOperand s = Some a" "operator s = Some opx" "opx \<noteq> []"
  shows "(currentInput s \<noteq> ''0'' \<and>
          isFinite (performCalculation a opx (getCurrentInputAsNumber s)) \<longrightarrow>
          selectOperator opr s =
            s\<lparr>firstOperand := Some (performCalculation a opx (getCurrentInputAsNumber s)),
              secondOperand := None, operator := Some opr, currentInput := ''0'',
              hasCalculated := False\<rparr>) \<and>
         (currentInput s = ''0'' \<and> hasCalculated s \<longrightarrow>
          selectOperator opr s =
            s\<lparr>operator := Some opr, hasCalculated := False, secondOperand := None\<rparr>) \<and>
         (currentInput s = ''0'' \<and> \<not> hasCalculated s \<longrightarrow>
          selectOperator opr s = s\<lparr>operator := Some opr\<rparr>) \<and>
         currentInput (run [Digit ''1'', Operator ''+'', Digit ''2'', Operator ''+'', Digit ''3'',
           Equals]) = ''6''"
proof -
  have six: "formatDisplayNumber (Fin 6) = ''6''"
    using formatDisplayNumber_int [of 6] by (simp add: number_eval)
  have "currentInput (run [Digit ''1'', Operator ''+'', Digit ''2'', Operator ''+'', Digit ''3'',
           Equals]) = ''6''"
    by (simp add: state_eval0 six number_eval)
  then show ?thesis
    using assms
    by (auto simp: selectOperator_def truthy_def Let_def)
qed

lemma run_zero_plus_zero:
  "run [Digit ''0'', Operator ''+'', Digit ''0'', Equals] =
    \<lparr>firstOperand = Some (Fin 0), secondOperand = Some (Fin 0), operator = Some ''+'',
     currentInput = ''0'', hasCalculated = True, isError = False\<rparr>"
  by (simp add: state_eval number_eval)

theorem C4_witness:
  "\<not> checkErrorState (run [Digit ''0'', Operator ''+'', Digit ''0'', Equals]) \<and>
   selectOperator ''*'' (run [Digit ''0'', Operator ''+'', Digit ''0'', Equals]) =
     \<lparr>firstOperand = Some (Fin 0), secondOperand = None, operator = Some ''*'',
      currentInput = ''0'', hasCalculated = False, isError = False\<rparr>"
proof -
  let ?s = "run [Digit ''0'', Operator ''+'', Digit ''0'', Equals]"
  have h: "\<not> checkErrorState ?s" "firstOperand ?s = Some (Fin 0)" "operator ?s = Some ''+''"
    "''+'' \<noteq> []"
    by (simp_all add: run_zero_plus_zero checkErrorState_def)
  show ?thesis
    using h(1) C4_operator_chaining [OF h, of "''*''"] by (simp add: run_zero_plus_zero)
qed

theorem C4_counterexample:
  "\<not> checkErrorState (run [Digit ''0'', Operator ''+'', Digit ''0'', Equals]) \<and>
   firstOperand (run [Digit ''0'', Operator ''+'', Digit ''0'', Equals]) = Some (Fin 0) \<and>
   operator (run [Digit ''0'', Operator ''+'', Digit ''0'', Equals]) = Some ''+'' \<and>
   currentInput (run [Digit ''0'', Operator ''+'', Digit ''0'', Equals]) = ''0'' \<and>
   selectOperator ''*'' (run [Digit ''0'', Operator ''+'', Digit ''0'', Equals]) \<noteq>
     (run [Digit ''0'', Operator ''+'', Digit ''0'', Equals])\<lparr>operator := Some ''*''\<rparr>"
  by (simp add: run_zero_plus_zero checkErrorState_def selectOperator_def truthy_def
      getCurrentInputAsNumber_def)

text \<open>
  C5 (the code on the keys \<open>9 / 0 +\<close>).  After \<open>9 / 0\<close> the dividend 9 is stored, the
  operator \<open>/\<close> is pending and the typed divisor \<open>"0"\<close> reads as 0, and
  \<open>performCalculation(9, "/", 0)\<close> is not-a-number, hence non-finite.  Equals then puts
  the machine in the Error state, and so does a further operator once the divisor is
  typed as \<open>"0."\<close>.  A further operator right after the divisor typed as \<open>"0"\<close> does
  not: \<open>selectOperator\<close> takes a typed \<open>"0"\<close> for no entry, only replaces the pending
  operator, and leaves the machine out of the Error state with the dividend 9 still
  stored.
\<close>

theorem C5_typed_zero_then_operator:
  "firstOperand (run [Digit ''9'', Operator ''/'', Digit ''0'']) = Some (Fin 9) \<and>
   operator (run [Digit ''9'', Operator ''/'', Digit ''0'']) = Some ''/'' \<and>
   currentInput (run [Digit ''9'', Operator ''/'', Digit ''0'']) = ''0'' \<and>
   getCurrentInputAsNumber (run [Digit ''9'', Operator ''/'', Digit ''0'']) = Fin 0 \<and>
   performCalculation (Fin 9) ''/'' (Fin 0) = NaN \<and> \<not> isFinite NaN \<and>
   errorEntered (run [Digit ''9'', Operator ''/'', Digit ''0'', Equals]) \<and>
   errorEntered (run [Digit ''9'', Operator ''/'', Digit ''0'', DecimalPoint, Operator ''+'']) \<and>
   run [Digit ''9'', Operator ''/'', Digit ''0'', Operator ''+''] =
     \<lparr>firstOperand = Some (Fin 9), secondOperand = None, operator = Some ''+'',
      currentInput = ''0'', hasCalculated = False, isError = False\<rparr> \<and>
   \<not> errorEntered (run [Digit ''9'', Operator ''/'', Digit ''0'', Operator ''+''])"
proof -
  let ?s = "run [Digit ''9'', Operator ''/'', Digit ''0'']"
  let ?p = "run [Digit ''9'', Operator ''/'', Digit ''0'', DecimalPoint]"
  have h: "\<not> checkErrorState ?s" "firstOperand ?s = Some (Fin 9)" "operator ?s = Some ''/''"
    "\<not> hasCalculated ?s" "getCurrentInputAsNumber ?s = Fin 0" "currentInput ?s = ''0''"
    by (simp_all add: run_nine_div_zero checkErrorState_def getCurrentInputAsNumber_def
        number_eval)
  have hp: "\<not> checkErrorState ?p" "firstOperand ?p = Some (Fin 9)" "operator ?p = Some ''/''"
    "\<not> hasCalculated ?p" "getCurrentInputAsNumber ?p = Fin 0" "currentInput ?p \<noteq> ''0''"
    by (simp_all add: run_nine_div_zero_point checkErrorState_def getCurrentInputAsNumber_def
        number_eval)
  have e: "run [Digit ''9'', Operator ''/'', Digit ''0'', Equals] = calculateResult ?s"
    by (simp add: run_def)
  have o: "run [Digit ''9'', Operator ''/'', Digit ''0'', Operator ''+''] =
      selectOperator ''+'' ?s"
    by (simp add: run_def)
  have q: "run [Digit ''9'', Operator ''/'', Digit ''0'', DecimalPoint, Operator ''+''] =
      selectOperator ''+'' ?p"
    by (simp add: run_def)
  have 1: "errorEntered (run [Digit ''9'', Operator ''/'', Digit ''0'', Equals])"
    unfolding e by (rule calculateResult_division_by_zero [OF h(1-5)])
  have 2: "errorEntered
      (run [Digit ''9'', Operator ''/'', Digit ''0'', DecimalPoint, Operator ''+''])"
    unfolding q by (rule selectOperator_division_by_zero [OF hp])
  have 3: "run [Digit ''9'', Operator ''/'', Digit ''0'', Operator ''+''] =
     \<lparr>firstOperand = Some (Fin 9), secondOperand = None, operator = Some ''+'',
      currentInput = ''0'', hasCalculated = False, isError = False\<rparr>"
    unfolding o selectOperator_typed_zero [OF h(1,2,4,6)] by (simp add: run_nine_div_zero)
  have 4: "\<not> errorEntered (run [Digit ''9'', Operator ''/'', Digit ''0'', Operator ''+''])"
    unfolding 3 by (simp add: errorEntered_def)
  have 5: "performCalculation (Fin 9) ''/'' (Fin 0) = NaN" "\<not> isFinite NaN"
    by (simp_all add: performCalculation_def isFinite_def)
  show ?thesis using h 1 2 3 4 5 by simp
qed

text \<open>
  C6.  In every reachable state, \<open>isError\<close> is true if and only if \<open>currentInput\<close>
  is the string \<open>"Error"\<close>.
\<close>

theorem C6_isError_iff_Error: "reachable s \<Longrightarrow> isError s = (currentInput s = ''Error'')"
  using reachable_inv [of s] Error_not_number [of "currentInput s"]
  by (auto simp: stateInv_def)

theorem C6_witness:
  "reachable (run [Digit ''9'', Operator ''/'', Digit ''0'', Equals]) \<and>
   isError (run [Digit ''9'', Operator ''/'', Digit ''0'', Equals]) \<and>
   currentInput (run [Digit ''9'', Operator ''/'', Digit ''0'', Equals]) = ''Error'' \<and>
   reachable (run [Digit ''9'']) \<and> \<not> isError (run [Digit ''9'']) \<and>
   currentInput (run [Digit ''9'']) \<noteq> ''Error''"
proof -
  have r: "reachable (run [Digit ''9'', Operator ''/'', Digit ''0'', Equals])"
    by (rule reachable_run) (simp add: digitChars_def)
  have r': "reachable (run [Digit ''9''])"
    by (rule reachable_run) (simp add: digitChars_def)
  have "isError (run [Digit ''9'', Operator ''/'', Digit ''0'', Equals])"
    by (simp add: run_nine_by_zero)
  moreover have "\<not> isError (run [Digit ''9''])"
    by (simp add: state_eval)
  ultimately show ?thesis
    using r r' C6_isError_iff_Error [OF r] C6_isError_iff_Error [OF r'] by simp
qed

text \<open>
  C7 (as amended).  In every reachable state that is not post-equals (\<open>hasCalculated\<close>
  false), \<open>currentInput\<close> is a syntactically valid partial-number string (optional leading
  \<open>-\<close>, digits, optional single \<open>.\<close>, digits) or exactly \<open>"Error"\<close>, and every
  operation other than Equals preserves this from any state.  In every reachable
  post-equals state \<open>currentInput\<close> is \<open>"Error"\<close>, or \<open>firstOperand\<close> is a finite
  number and \<open>currentInput\<close> is exactly \<open>formatDisplayNumber(firstOperand)\<close>, that is
  \<open>String\<close> of the rounded result, or that string with its leading \<open>-\<close> toggled by Sign.
  That string need not be a partial number: \<open>1 / 10000000 =\<close> displays \<open>"1e-7"\<close>.
\<close>

theorem C7_currentInput_shape:
  "(reachable s \<and> \<not> hasCalculated s \<longrightarrow>
      validPartialNumber (currentInput s) \<or> currentInput s = ''Error'') \<and>
   (reachable s \<and> hasCalculated s \<longrightarrow>
      postEqualsDisplay s \<or> currentInput s = ''Error'') \<and>
   ((validPartialNumber (currentInput t) \<or> currentInput t = ''Error'') \<and>
      validCommand c \<and> c \<noteq> Equals \<longrightarrow>
      validPartialNumber (currentInput (step t c)) \<or> currentInput (step t c) = ''Error'')"
  using reachable_inv [of s] reachable_display [of s] valid_step [of t c]
  by (auto simp: stateInv_def)

lemma run_one_by_ten_million:
  "run [Digit ''1'', Operator ''/'', Digit ''1'', Digit ''0'', Digit ''0'', Digit ''0'',
        Digit ''0'', Digit ''0'', Digit ''0'', Digit ''0'', Equals] =
    \<lparr>firstOperand = Some (Fin (944473296573929 / 9444732965739290427392)),
     secondOperand = Some (Fin 10000000), operator = Some ''/'',
     currentInput = ''1e-7'', hasCalculated = True, isError = False\<rparr>"
  by (simp add: state_eval number_eval)

lemma run_five_plus_three:
  "run [Digit ''5'', Operator ''+'', Digit ''3'', Equals] =
    \<lparr>firstOperand = Some (Fin 8), secondOperand = Some (Fin 3),
      operator = Some ''+'', currentInput = ''8'', hasCalculated = True, isError = False\<rparr>"
  using formatDisplayNumber_int [of 8] by (simp add: state_eval0 number_eval)

theorem C7_witness:
  "reachable (run [DecimalPoint, Digit ''5'', Sign]) \<and>
   \<not> hasCalculated (run [DecimalPoint, Digit ''5'', Sign]) \<and>
   currentInput (run [DecimalPoint, Digit ''5'', Sign]) = ''-0.5'' \<and>
   validPartialNumber ''-0.5'' \<and>
   validPartialNumber (currentInput (step (run [DecimalPoint, Digit ''5'', Sign]) Backspace)) \<and>
   reachable (run [Digit ''5'', Operator ''+'', Digit ''3'', Equals]) \<and>
   hasCalculated (run [Digit ''5'', Operator ''+'', Digit ''3'', Equals]) \<and>
   currentInput (run [Digit ''5'', Operator ''+'', Digit ''3'', Equals]) \<noteq> ''Error'' \<and>
   postEqualsDisplay (run [Digit ''5'', Operator ''+'', Digit ''3'', Equals])"
proof -
  let ?s = "run [DecimalPoint, Digit ''5'', Sign]"
  let ?u = "run [Digit ''5'', Operator ''+'', Digit ''3'', Equals]"
  have r: "reachable ?s" by (rule reachable_run) (simp add: digitChars_def)
  have c: "currentInput ?s = ''-0.5''" "\<not> hasCalculated ?s"
    by (simp_all add: state_eval)
  have b: "currentInput (step ?s Backspace) \<noteq> ''Error''"
    by (simp add: state_eval)
  have v: "validPartialNumber ''-0.5''"
    by (simp add: validPartialNumber_def startsWithMinus_def isDigit_def digitChars_def)
  have w: "validPartialNumber (currentInput (step ?s Backspace))"
    using C7_currentInput_shape [of ?s ?s Backspace] b c v by simp
  have ru: "reachable ?u" by (rule reachable_run) (simp add: digitChars_def)
  have hu: "hasCalculated ?u" "currentInput ?u \<noteq> ''Error''"
    by (simp_all add: run_five_plus_three)
  have "postEqualsDisplay ?u"
    using C7_currentInput_shape [of ?u ?u Backspace] ru hu by blast
  then show ?thesis
    using r c v w ru hu by simp
qed

theorem C7_counterexample:
  "reachable (run [Digit ''1'', Operator ''/'', Digit ''1'', Digit ''0'', Digit ''0'',
      Digit ''0'', Digit ''0'', Digit ''0'', Digit ''0'', Digit ''0'', Equals]) \<and>
   currentInput (run [Digit ''1'', Operator ''/'', Digit ''1'', Digit ''0'', Digit ''0'',
      Digit ''0'', Digit ''0'', Digit ''0'', Digit ''0'', Digit ''0'', Equals]) = ''1e-7'' \<and>
   \<not> validPartialNumber ''1e-7'' \<and> ''1e-7'' \<noteq> ''Error''"
proof -
  have "reachable (run [Digit ''1'', Operator ''/'', Digit ''1'', Digit ''0'', Digit ''0'',
      Digit ''0'', Digit ''0'', Digit ''0'', Digit ''0'', Digit ''0'', Equals])"
    by (rule reachable_run) (simp add: digitChars_def)
  then show ?thesis
    by (simp add: run_one_by_ten_million validPartialNumber_def startsWithMinus_def
        isDigit_def digitChars_def)
qed

text \<open>
  C8 (as amended).  For every reachable state whose \<open>currentInput\<close> is neither
  \<open>"-0"\<close> nor \<open>"-0."\<close>, applying \<open>toggleSign\<close> twice returns the state to exactly its
  prior value.
\<close>

theorem C8_toggleSign_twice:
  assumes "reachable s" "currentInput s \<noteq> ''-0''" "currentInput s \<noteq> ''-0.''"
  shows "toggleSign (toggleSign s) = s"
proof (cases "isError s")
  case True
  then show ?thesis by (simp add: toggleSign_def checkErrorState_def)
next
  case False
  have c: "set (currentInput s) \<subseteq> numberChars"
    using reachable_inv [OF assms(1)] False by (simp add: stateInv_def)
  then have e: "currentInput s \<noteq> ''Error''" "currentInput s \<noteq> ''-Error''"
    using numberChars_simps(4) by auto
  have g: "singleSign (currentInput s)"
  proof (cases "hasCalculated s")
    case True
    then show ?thesis using reachable_inv [OF assms(1)] False by (simp add: stateInv_def)
  next
    case False': False
    then have "validPartialNumber (currentInput s)"
      using reachable_inv [OF assms(1)] False by (simp add: stateInv_def)
    then show ?thesis
      by (cases rule: valid_cases) (auto simp: singleSign_def dest: afterSign_no_minus)
  qed
  show ?thesis
  proof (cases "currentInput s")
    case Nil
    then show ?thesis using False by (simp add: toggleSign_def checkErrorState_def startsWithMinus_def)
  next
    case (Cons ch r)
    then show ?thesis
      using False e assms(2,3) g
      by (auto simp: toggleSign_def checkErrorState_def startsWithMinus_def singleSign_def
          split: list.splits)
  qed
qed

lemma run_minus_zero_point:
  "run [DecimalPoint, Digit ''5'', Sign, Backspace] =
    \<lparr>firstOperand = None, secondOperand = None, operator = None,
     currentInput = ''-0.'', hasCalculated = False, isError = False\<rparr>"
  by (simp add: state_eval)

theorem C8_witness:
  "reachable (run [DecimalPoint, Digit ''5'', Sign]) \<and>
   currentInput (run [DecimalPoint, Digit ''5'', Sign]) = ''-0.5'' \<and>
   currentInput (toggleSign (run [DecimalPoint, Digit ''5'', Sign])) = ''0.5'' \<and>
   toggleSign (toggleSign (run [DecimalPoint, Digit ''5'', Sign])) =
     run [DecimalPoint, Digit ''5'', Sign]"
proof -
  let ?s = "run [DecimalPoint, Digit ''5'', Sign]"
  have r: "reachable ?s" by (rule reachable_run) (simp add: digitChars_def)
  have c: "currentInput ?s = ''-0.5''" by (simp add: state_eval)
  have t: "currentInput (toggleSign ?s) = ''0.5''" by (simp add: state_eval)
  have "toggleSign (toggleSign ?s) = ?s"
    by (rule C8_toggleSign_twice [OF r]) (simp_all add: c)
  then show ?thesis using r c t by simp
qed

theorem C8_counterexample:
  "reachable (run [DecimalPoint, Digit ''5'', Sign, Backspace]) \<and>
   currentInput (run [DecimalPoint, Digit ''5'', Sign, Backspace]) = ''-0.'' \<and>
   currentInput (toggleSign (toggleSign (run [DecimalPoint, Digit ''5'', Sign, Backspace]))) = ''0.'' \<and>
   toggleSign (toggleSign (run [DecimalPoint, Digit ''5'', Sign, Backspace])) \<noteq>
     run [DecimalPoint, Digit ''5'', Sign, Backspace]"
proof -
  have "reachable (run [DecimalPoint, Digit ''5'', Sign, Backspace])"
    by (rule reachable_run) (simp add: digitChars_def)
  then show ?thesis
    by (simp add: run_minus_zero_point toggleSign_def checkErrorState_def startsWithMinus_def)
qed






text \<open>
  C10.  \<open>toggleSign\<close> never exits the post-equals state: applied when \<open>hasCalculated\<close> is
  true and the state is not in error, it changes \<open>currentInput\<close> only, leaving
  \<open>firstOperand\<close>, \<open>secondOperand\<close>, \<open>operator\<close> and \<open>hasCalculated\<close> as they are; so
  pressing Equals after Equals-then-Sign computes from the stored, un-negated
  \<open>firstOperand\<close> and gives the state that Equals alone would give.
\<close>

theorem C10_toggleSign_post_equals:
  assumes "reachable s" "hasCalculated s" "\<not> checkErrorState s"
  shows "toggleSign s = s\<lparr>currentInput := currentInput (toggleSign s)\<rparr> \<and>
         firstOperand (toggleSign s) = firstOperand s \<and>
         secondOperand (toggleSign s) = secondOperand s \<and>
         operator (toggleSign s) = operator s \<and>
         hasCalculated (toggleSign s) \<and>
         calculateResult (toggleSign s) = calculateResult s"
proof -
  have ne: "\<not> isError s" using assms(3) by (simp add: checkErrorState_def)
  have i: "stateInv (toggleSign s)" "stateInv s"
    using reachable_inv [OF assms(1)] by (simp_all add: inv_toggleSign)
  have f: "toggleSign s = s\<lparr>currentInput := currentInput (toggleSign s)\<rparr>"
    by (simp add: toggleSign_def)
  have e: "\<not> checkErrorState (toggleSign s)"
    using inv_not_error [OF i(1)] ne by (simp add: toggleSign_def)
  obtain b a opx where b: "secondOperand s = Some b" "firstOperand s = Some a"
      "operator s = Some opx"
    using i(2) ne assms(2) by (auto simp: stateInv_def truthy_def split: option.splits)
  have o: "equalsOperand (toggleSign s) = b" "equalsOperand s = b"
    using assms(2) b by (simp_all add: equalsOperand_def toggleSign_def)
  have t: "firstOperand (toggleSign s) = Some a" "operator (toggleSign s) = Some opx"
    using b by (simp_all add: toggleSign_def)
  have "calculateResult (toggleSign s) =
      (if \<not> isFinite (performCalculation a opx b) then enterError (toggleSign s)
       else (toggleSign s)\<lparr>secondOperand := Some b,
              firstOperand := Some (performCalculation a opx b),
              currentInput := formatDisplayNumber (performCalculation a opx b),
              hasCalculated := True\<rparr>)"
    using e o(1) t by (simp add: calculateResult_def Let_def)
  moreover have "calculateResult s =
      (if \<not> isFinite (performCalculation a opx b) then enterError s
       else s\<lparr>secondOperand := Some b,
              firstOperand := Some (performCalculation a opx b),
              currentInput := formatDisplayNumber (performCalculation a opx b),
              hasCalculated := True\<rparr>)"
    using assms(3) o(2) b by (simp add: calculateResult_def Let_def)
  ultimately have "calculateResult (toggleSign s) = calculateResult s"
    by (simp add: toggleSign_def enterError_def)
  then show ?thesis using f assms(2) by (simp add: toggleSign_def)
qed

theorem C10_witness:
  "reachable (run [Digit ''5'', Operator ''+'', Digit ''3'', Equals]) \<and>
   hasCalculated (run [Digit ''5'', Operator ''+'', Digit ''3'', Equals]) \<and>
   \<not> checkErrorState (run [Digit ''5'', Operator ''+'', Digit ''3'', Equals]) \<and>
   currentInput (run [Digit ''5'', Operator ''+'', Digit ''3'', Equals, Sign]) = ''-8'' \<and>
   firstOperand (run [Digit ''5'', Operator ''+'', Digit ''3'', Equals, Sign]) = Some (Fin 8) \<and>
   currentInput (run [Digit ''5'', Operator ''+'', Digit ''3'', Equals, Sign, Equals]) = ''11'' \<and>
   run [Digit ''5'', Operator ''+'', Digit ''3'', Equals, Sign, Equals] =
     run [Digit ''5'', Operator ''+'', Digit ''3'', Equals, Equals]"
proof -
  let ?s = "run [Digit ''5'', Operator ''+'', Digit ''3'', Equals]"
  have s: "?s = \<lparr>firstOperand = Some (Fin 8), secondOperand = Some (Fin 3),
      operator = Some ''+'', currentInput = ''8'', hasCalculated = True, isError = False\<rparr>"
    using formatDisplayNumber_int [of 8]
    by (simp add: state_eval0 number_eval)
  have r: "reachable ?s" by (rule reachable_run) (simp add: digitChars_def)
  have h: "hasCalculated ?s" "\<not> checkErrorState ?s"
    by (simp_all add: s checkErrorState_def)
  have u: "run [Digit ''5'', Operator ''+'', Digit ''3'', Equals, Sign] = toggleSign ?s"
    "run [Digit ''5'', Operator ''+'', Digit ''3'', Equals, Sign, Equals] =
      calculateResult (toggleSign ?s)"
    "run [Digit ''5'', Operator ''+'', Digit ''3'', Equals, Equals] = calculateResult ?s"
    by (simp_all add: run_def)
  have t: "currentInput (toggleSign ?s) = ''-8''"
    by (simp add: s toggleSign_def checkErrorState_def startsWithMinus_def)
  have c: "currentInput (calculateResult ?s) = ''11''"
    using formatDisplayNumber_int [of 11]
    by (simp add: s calculateResult_def checkErrorState_def equalsOperand_def
        performCalculation_def number_eval)
  have f: "firstOperand ?s = Some (Fin 8)" by (simp add: s)
  note C = C10_toggleSign_post_equals [OF r h]
  have e1: "calculateResult (toggleSign ?s) = calculateResult ?s"
    and e2: "firstOperand (toggleSign ?s) = firstOperand ?s"
    using C by blast+
  show ?thesis
    using r h t c f e1 e2 by (simp add: u)
qed

end
